theory Spec2Isabelle
  imports Complex_Main "HOL-Library.Sublist"
begin

text \<open>
  The synthetic feasibility scoring component of REINVENT4
  (\<open>reinvent_plugins/components/comp_synthetic_feasibility.py\<close>): for every configured
  endpoint it posts the batch of SMILES to a remote predictor and turns the answer into
  a vector of scores, one slot per molecule. The component is embedded as pure functions
  over an explicit state of the network; an exception is an \<open>Inl\<close> result.
\<close>

section \<open>Python values, exceptions and the numeric interface\<close>

text \<open>
  The value of \<open>response.json()\<close>: what Python's JSON decoder builds. The type
  parameter \<open>'d\<close> stands for Python's \<open>float\<close> (an IEEE double, with NaN and the
  infinities, which the decoder accepts). A decoded object is a \<open>dict\<close> with string keys.
\<close>

datatype 'd json =
    JNull
  | JBool bool
  | JInt int
  | JFloat 'd
  | JString string
  | JList "'d json list"
  | JDict "string \<Rightarrow> 'd json option"

text \<open>
  The exceptions that can travel through the component. \<open>RequestException\<close> stands for
  \<open>requests.exceptions.RequestException\<close> and every subclass of it (ConnectionError,
  Timeout, and the JSONDecodeError of recent versions of the library); \<open>OtherError\<close> for
  any exception class that none of the handlers of the source names.
\<close>

datatype exn =
    RequestException string
  | ValueError string
  | TypeError
  | KeyError
  | AttributeError
  | OverflowError
  | OtherError string

fun is_RequestException :: "exn \<Rightarrow> bool" where
  "is_RequestException (RequestException _) = True"
| "is_RequestException _ = False"

text \<open>
  Floating point itself is not modelled. The operations of Python and numpy on floats
  that the source relies on are a parameter: the conversion of an \<open>int\<close> to a double
  (\<open>None\<close>: OverflowError, the integer is too large), the parsing of a \<open>str\<close> as a
  double (\<open>None\<close>: ValueError, the text is no number), the cast of a double to an element
  of a float32 array, and the float32 NaN.
\<close>

record ('d, 'f) numeric =
  int_to_double :: "int \<Rightarrow> 'd option"
  str_to_double :: "string \<Rightarrow> 'd option"
  to_float32 :: "'d \<Rightarrow> 'f"
  nan32 :: 'f

text \<open>\<open>float(x)\<close> on a decoded JSON value. A \<open>bool\<close> is the integer 0 or 1.\<close>

fun py_float :: "('d, 'f) numeric \<Rightarrow> 'd json \<Rightarrow> exn + 'd" where
  "py_float L JNull = Inl TypeError"
| "py_float L (JBool b) =
     (case int_to_double L (if b then 1 else 0) of
        None \<Rightarrow> Inl OverflowError | Some d \<Rightarrow> Inr d)"
| "py_float L (JInt n) =
     (case int_to_double L n of None \<Rightarrow> Inl OverflowError | Some d \<Rightarrow> Inr d)"
| "py_float L (JFloat d) = Inr d"
| "py_float L (JString s) =
     (case str_to_double L s of None \<Rightarrow> Inl (ValueError s) | Some d \<Rightarrow> Inr d)"
| "py_float L (JList xs) = Inl TypeError"
| "py_float L (JDict m) = Inl TypeError"

text \<open>
  \<open>x.get(key)\<close>: only a \<open>dict\<close> has the method; on any other decoded value the
  attribute lookup raises AttributeError. A missing key gives \<open>None\<close>.
\<close>

definition py_get :: "'d json \<Rightarrow> string \<Rightarrow> exn + 'd json" where
  "py_get x key =
     (case x of
        JDict m \<Rightarrow> Inr (case m key of None \<Rightarrow> JNull | Some v \<Rightarrow> v)
      | _ \<Rightarrow> Inl AttributeError)"

subsection \<open>Formatting\<close>

text \<open>\<open>str\<close> of an \<open>int\<close>, as an f-string renders it.\<close>

definition digit_char :: "nat \<Rightarrow> char" where
  "digit_char d = ''0123456789abcdef'' ! d"

fun str_nat :: "nat \<Rightarrow> string" where
  "str_nat n = (if n < 10 then [digit_char n] else str_nat (n div 10) @ [digit_char (n mod 10)])"

definition str_int :: "int \<Rightarrow> string" where
  "str_int i = (if i < 0 then CHR ''-'' # str_nat (nat (- i)) else str_nat (nat i))"

text \<open>
  \<open>str\<close> of a \<open>bytes\<close> object (its \<open>repr\<close>), as an f-string renders it: \<open>b'...'\<close>,
  in double quotes when the bytes hold a single quote and no double quote, with the
  quote and the backslash escaped, tab, newline and carriage return by letter, and every
  other byte outside the printable ASCII range as \<open>\xhh\<close>. A \<open>char\<close> is a byte.
\<close>

definition escape_byte :: "char \<Rightarrow> char \<Rightarrow> string" where
  "escape_byte quote c =
     (if c = quote \<or> c = CHR 0x5C then [CHR 0x5C, c]
      else if c = CHR 0x09 then [CHR 0x5C, CHR ''t'']
      else if c = CHR 0x0A then [CHR 0x5C, CHR ''n'']
      else if c = CHR 0x0D then [CHR 0x5C, CHR ''r'']
      else if (of_char c :: nat) < 32 \<or> (of_char c :: nat) \<ge> 127
        then [CHR 0x5C, CHR ''x'', digit_char (of_char c div 16), digit_char (of_char c mod 16)]
      else [c])"

definition bytes_repr :: "string \<Rightarrow> string" where
  "bytes_repr bs =
     (let quote = (if CHR 0x27 \<in> set bs \<and> CHR 0x22 \<notin> set bs then CHR 0x22 else CHR 0x27)
      in CHR ''b'' # quote # concat (map (escape_byte quote) bs) @ [quote])"

section \<open>The HTTP transport\<close>

text \<open>The arguments of \<open>requests.post\<close>: the address, \<open>json\<close>, \<open>headers\<close>, \<open>timeout\<close>.\<close>

record 'd request =
  rq_url :: string
  rq_json :: "'d json"
  rq_headers :: "(string \<times> string) list"
  rq_timeout :: nat

text \<open>
  What the source reads of a response: \<open>status_code\<close>, \<open>reason\<close>, \<open>content\<close> (bytes),
  \<open>text\<close>, and the outcome of \<open>json()\<close>, which returns the decoded body or raises.
\<close>

record 'd response =
  status_code :: int
  reason :: string
  content :: string
  text_str :: string
  json_result :: "exn + 'd json"

text \<open>
  The network is a state: the requests handed to \<open>requests.post\<close> so far, and the
  state \<open>'w\<close> of the remote servers. A request ends with a response or with an
  exception raised by \<open>requests.post\<close>, and may change the state of the servers.
\<close>

record ('d, 'w) net =
  sent :: "'d request list"
  world :: 'w

type_synonym ('d, 'w) server = "'d request \<Rightarrow> 'w \<Rightarrow> (exn + 'd response) \<times> 'w"

definition requests_post ::
  "('d, 'w) server \<Rightarrow> 'd request \<Rightarrow> ('d, 'w) net \<Rightarrow> (exn + 'd response) \<times> ('d, 'w) net" where
  "requests_post srv rq s =
     (case srv rq (world s) of (out, w') \<Rightarrow> (out, \<lparr>sent = sent s @ [rq], world = w'\<rparr>))"

section \<open>Parameters and construction\<close>

record Parameters =
  server_url :: "string list option"
  server_port :: "int list option"
  server_endpoint :: "string list option"

definition DEFAULT_SERVER_URL :: string where
  "DEFAULT_SERVER_URL = ''http://localhost''"

definition DEFAULT_SERVER_PORT :: int where
  "DEFAULT_SERVER_PORT = 5000"

definition DEFAULT_SERVER_ENDPOINT :: string where
  "DEFAULT_SERVER_ENDPOINT = ''synthetic_feasibility_surrogate''"

record SyntheticFeasibility =
  server_urls :: "string list"
  server_ports :: "int list"
  server_endpoints :: "string list"
  smiles_type :: string
  number_of_endpoints :: nat

text \<open>\<open>x or d\<close> on an optional list: \<open>None\<close> and the empty list are falsy.\<close>

definition py_or :: "'a list option \<Rightarrow> 'a list \<Rightarrow> 'a list" where
  "py_or x d = (case x of None \<Rightarrow> d | Some xs \<Rightarrow> if xs = [] then d else xs)"

definition init :: "Parameters \<Rightarrow> SyntheticFeasibility" where
  "init params =
     (let urls = py_or (server_url params) [DEFAULT_SERVER_URL] in
      \<lparr>server_urls = urls,
       server_ports = py_or (server_port params) [DEFAULT_SERVER_PORT],
       server_endpoints = py_or (server_endpoint params) [DEFAULT_SERVER_ENDPOINT],
       smiles_type = ''rdkit_smiles'',
       number_of_endpoints = length urls\<rparr>)"

section \<open>Parsing a response\<close>

text \<open>
  The body of the \<open>try\<close> in the loop of \<open>_parse_response\<close> with its handler, for one
  entry: \<open>Inr None\<close> leaves the slot as it is, \<open>Inr (Some x)\<close> stores \<open>x\<close>, \<open>Inl e\<close> is
  an exception that the handler does not catch.
\<close>

fun caught_in_parse :: "exn \<Rightarrow> bool" where
  "caught_in_parse (ValueError _) = True"
| "caught_in_parse TypeError = True"
| "caught_in_parse KeyError = True"
| "caught_in_parse _ = False"

definition parse_entry :: "('d, 'f) numeric \<Rightarrow> 'd json \<Rightarrow> exn + 'f option" where
  "parse_entry L result =
     (case (case py_get result ''prediction'' of
              Inl e \<Rightarrow> Inl e
            | Inr prediction \<Rightarrow>
                (case prediction of
                   JNull \<Rightarrow> Inr None
                 | _ \<Rightarrow> (case py_float L prediction of
                           Inl e \<Rightarrow> Inl e
                         | Inr x \<Rightarrow> Inr (Some (to_float32 L x)))))
      of Inl e \<Rightarrow> if caught_in_parse e then Inr None else Inl e
       | Inr r \<Rightarrow> Inr r)"

text \<open>The loop over \<open>enumerate(response_json)\<close>; \<open>i\<close> is the position of the next entry.\<close>

fun parse_loop ::
  "('d, 'f) numeric \<Rightarrow> nat \<Rightarrow> 'f list \<Rightarrow> nat \<Rightarrow> 'd json list \<Rightarrow> exn + 'f list" where
  "parse_loop L data_size results i [] = Inr results"
| "parse_loop L data_size results i (result # rest) =
     (if i \<ge> data_size then Inr results
      else case parse_entry L result of
             Inl e \<Rightarrow> Inl e
           | Inr None \<Rightarrow> parse_loop L data_size results (i + 1) rest
           | Inr (Some x) \<Rightarrow> parse_loop L data_size (results[i := x]) (i + 1) rest)"

text \<open>\<open>data_size\<close> is \<open>len(smilies)\<close> at the only call, a natural number.\<close>

definition parse_response :: "('d, 'f) numeric \<Rightarrow> 'd json \<Rightarrow> nat \<Rightarrow> exn + 'f list" where
  "parse_response L response_json data_size =
     (let results = replicate data_size (nan32 L) in
      case response_json of
        JList entries \<Rightarrow> parse_loop L data_size results 0 entries
      | _ \<Rightarrow> Inr results)"

text \<open>\<open>isinstance(response_json, list)\<close>.\<close>

fun is_list :: "'d json \<Rightarrow> bool" where
  "is_list (JList _) = True"
| "is_list _ = False"

text \<open>
  What the slot of an entry holds once the loop has passed the entry without raising:
  the stored prediction, or what the slot held before.
\<close>

definition slot_of :: "('d, 'f) numeric \<Rightarrow> 'f \<Rightarrow> 'd json \<Rightarrow> 'f" where
  "slot_of L old result = (case parse_entry L result of Inr (Some x) \<Rightarrow> x | _ \<Rightarrow> old)"

section \<open>Scoring\<close>

record 'f ComponentResults =
  scores :: "'f list list"

definition failure_message :: "'d response \<Rightarrow> string" where
  "failure_message response =
     ''Synthetic feasibility API failed.'' @ [CHR 0x0A] @
     ''Status Code: '' @ str_int (status_code response) @ [CHR 0x0A] @
     ''Reason: ('' @ reason response @ '')'' @ [CHR 0x0A] @
     ''Response content: '' @ bytes_repr (content response) @ [CHR 0x0A] @
     ''Response text: '' @ text_str response"

text \<open>The \<open>try\<close> block of one iteration of the loop of \<open>__call__\<close>.\<close>

definition try_request ::
  "('d, 'f) numeric \<Rightarrow> ('d, 'w) server \<Rightarrow> string list \<Rightarrow> string \<Rightarrow> 'd json \<Rightarrow>
   ('d, 'w) net \<Rightarrow> (exn + 'f list) \<times> ('d, 'w) net" where
  "try_request L srv smilies full_url json_data s =
     (case requests_post srv
             \<lparr>rq_url = full_url, rq_json = json_data,
              rq_headers = [(''Content-Type'', ''application/json'')], rq_timeout = 30\<rparr> s of
        (Inl e, s') \<Rightarrow> (Inl e, s')
      | (Inr response, s') \<Rightarrow>
          (if status_code response \<noteq> 200 then Inl (ValueError (failure_message response))
           else case json_result response of
                  Inl e \<Rightarrow> Inl e
                | Inr response_json \<Rightarrow> parse_response L response_json (length smilies),
           s'))"

text \<open>One iteration: the \<open>try\<close> block and its handler for RequestException.\<close>

definition query_endpoint ::
  "('d, 'f) numeric \<Rightarrow> ('d, 'w) server \<Rightarrow> string list \<Rightarrow> string \<times> int \<times> string \<Rightarrow>
   ('d, 'w) net \<Rightarrow> (exn + 'f list) \<times> ('d, 'w) net" where
  "query_endpoint L srv smilies ep s =
     (case ep of (url, port, endpoint) \<Rightarrow>
        let full_url = url @ '':'' @ str_int port @ ''/'' @ endpoint;
            json_data = JDict (Map.empty(''smiles'' \<mapsto> JList (map JString smilies)))
        in (case try_request L srv smilies full_url json_data s of
              (Inl e, s') \<Rightarrow>
                if is_RequestException e
                then (Inr (replicate (length smilies) (nan32 L)), s')
                else (Inl e, s')
            | (Inr results, s') \<Rightarrow> (Inr results, s')))"

text \<open>The loop over the zipped parameter lists; \<open>acc\<close> is the list \<open>scores\<close>.\<close>

fun score_loop ::
  "('d, 'f) numeric \<Rightarrow> ('d, 'w) server \<Rightarrow> string list \<Rightarrow> (string \<times> int \<times> string) list \<Rightarrow>
   'f list list \<Rightarrow> ('d, 'w) net \<Rightarrow> (exn + 'f list list) \<times> ('d, 'w) net" where
  "score_loop L srv smilies [] acc s = (Inr acc, s)"
| "score_loop L srv smilies (ep # eps) acc s =
     (case query_endpoint L srv smilies ep s of
        (Inl e, s') \<Rightarrow> (Inl e, s')
      | (Inr results, s') \<Rightarrow> score_loop L srv smilies eps (acc @ [results]) s')"

text \<open>\<open>zip\<close> of the three lists, as long as the shortest.\<close>

definition endpoints :: "SyntheticFeasibility \<Rightarrow> (string \<times> int \<times> string) list" where
  "endpoints self = zip (server_urls self) (zip (server_ports self) (server_endpoints self))"

text \<open>
  \<open>__call__\<close> on the batch it receives from the normalisation decorator, which is not
  part of this component.
\<close>

definition call ::
  "('d, 'f) numeric \<Rightarrow> ('d, 'w) server \<Rightarrow> SyntheticFeasibility \<Rightarrow> string list \<Rightarrow>
   ('d, 'w) net \<Rightarrow> (exn + 'f ComponentResults) \<times> ('d, 'w) net" where
  "call L srv self smilies s =
     (case score_loop L srv smilies (endpoints self) [] s of
        (Inl e, s') \<Rightarrow> (Inl e, s')
      | (Inr acc, s') \<Rightarrow> (Inr \<lparr>scores = acc\<rparr>, s'))"

text \<open>
  The call of \<open>requests.post\<close> that one iteration makes for an endpoint triple, named
  for the statements about the requests of a call.
\<close>

definition post_for :: "string list \<Rightarrow> string \<times> int \<times> string \<Rightarrow> 'd request" where
  "post_for smilies =
     (\<lambda>(url, port, endpoint).
        \<lparr>rq_url = url @ '':'' @ str_int port @ ''/'' @ endpoint,
         rq_json = JDict (Map.empty(''smiles'' \<mapsto> JList (map JString smilies))),
         rq_headers = [(''Content-Type'', ''application/json'')],
         rq_timeout = 30\<rparr>)"

section \<open>Concrete inputs\<close>

text \<open>
  An instance of the numeric interface for evaluating the model on examples. A double is
  the rational it denotes and a slot is that rational, or \<open>None\<close> for NaN: nothing is
  rounded. An integer converts unless it rounds beyond the largest double
  (\<open>float(n)\<close> raises OverflowError from \<open>2 ^ 1024 - 2 ^ 970\<close> on), and the only
  string that parses as a number is \<open>0.5\<close> (the examples use no other numeric string).
\<close>

definition example_numeric :: "(rat, rat option) numeric" where
  "example_numeric =
     \<lparr>int_to_double = (\<lambda>n. if \<bar>n\<bar> < 2 ^ 1024 - 2 ^ 970 then Some (of_int n) else None),
      str_to_double = (\<lambda>s. if s = ''0.5'' then Some (1 / 2) else None),
      to_float32 = Some,
      nan32 = None\<rparr>"

text \<open>A well-formed response body for a batch of two molecules.\<close>

definition two_records :: "rat json list" where
  "two_records =
     [JDict (Map.empty(''smiles'' \<mapsto> JString ''CCO'', ''prediction'' \<mapsto> JFloat (1 / 2))),
      JDict (Map.empty(''smiles'' \<mapsto> JString ''C'', ''prediction'' \<mapsto> JInt 3))]"

definition ok_response :: "rat json \<Rightarrow> rat response" where
  "ok_response body =
     \<lparr>status_code = 200, reason = ''OK'', content = ''[...]'', text_str = ''[...]'',
      json_result = Inr body\<rparr>"

text \<open>
  Four servers: host \<open>a\<close> answers two well-formed records, host \<open>b\<close> refuses the
  connection, host \<open>c\<close> answers 500, and any other host answers a list of strings.
\<close>

definition example_server :: "(rat, unit) server" where
  "example_server rq w =
     (if rq_url rq = ''http://a:80/sf'' then
        (Inr (ok_response (JList two_records)), w)
      else if rq_url rq = ''http://b:80/sf'' then
        (Inl (RequestException ''connection refused''), w)
      else if rq_url rq = ''http://c:80/sf'' then
        (Inr \<lparr>status_code = 500, reason = ''Internal Server Error'', content = ''boom'',
              text_str = ''boom'', json_result = Inl (RequestException ''no JSON'')\<rparr>, w)
      else (Inr (ok_response (JList [JString ''CCO'', JString ''C''])), w))"

text \<open>A server that answers every request with the two well-formed records.\<close>

definition answering_server :: "(rat, unit) server" where
  "answering_server rq w = (Inr (ok_response (JList two_records)), w)"

definition example_params :: "string list \<Rightarrow> Parameters" where
  "example_params hosts =
     \<lparr>server_url = Some hosts, server_port = Some (map (\<lambda>_. 80) hosts),
      server_endpoint = Some (map (\<lambda>_. ''sf'') hosts)\<rparr>"

definition start :: "(rat, unit) net" where
  "start = \<lparr>sent = [], world = ()\<rparr>"

section \<open>Floating point values\<close>

text \<open>
  The values of Python's \<open>float\<close> (IEEE binary64) and of the elements of a float32 array
  (IEEE binary32): NaN, the two infinities (\<open>True\<close> for the positive one) and the finite
  values, each given by the rational it denotes. The two zeros are not told apart.
\<close>

datatype ieee = NaN | Infinity bool | Num rat

text \<open>The number of binary digits of a positive integer.\<close>

function bit_length :: "int \<Rightarrow> int" where
  "bit_length n = (if n \<le> 0 then 0 else 1 + bit_length (n div 2))"
  by pat_completeness auto
termination
  by (relation "measure nat") auto

declare bit_length.simps [simp del]

text \<open>The exponent of a positive rational \<open>q\<close>: the \<open>e\<close> with \<open>2^e \<le> q < 2^(e+1)\<close>.\<close>

definition ilog2 :: "rat \<Rightarrow> int" where
  "ilog2 q =
     (case quotient_of q of (a, b) \<Rightarrow>
        let d = bit_length a - bit_length b
        in if power_int 2 d \<le> q then d else d - 1)"

definition round_half_even :: "rat \<Rightarrow> int" where
  "round_half_even x =
     (let f = \<lfloor>x\<rfloor>; r = x - of_int f
      in if r < 1 / 2 then f else if 1 / 2 < r then f + 1 else if even f then f else f + 1)"

text \<open>
  Rounding of a rational to the nearest value of the binary format with \<open>p\<close>
  significant bits and exponents from \<open>emin\<close> to \<open>emax\<close>, ties to even, with gradual
  underflow below \<open>2^emin\<close> and overflow to an infinity: the rounding of IEEE 754
  that the JSON decoder uses for a literal and numpy for a cast.
\<close>

definition round_to :: "nat \<Rightarrow> int \<Rightarrow> int \<Rightarrow> rat \<Rightarrow> ieee" where
  "round_to p emin emax q =
     (if q = 0 then Num 0
      else let e = max (ilog2 \<bar>q\<bar>) emin;
               ulp = power_int 2 (e - int p + 1);
               r = of_int (round_half_even (\<bar>q\<bar> / ulp)) * ulp
           in if power_int 2 (emax + 1) \<le> r then Infinity (0 < q) else Num (sgn q * r))"

text \<open>The double that a decimal literal of the response body decodes to.\<close>

definition binary64 :: "rat \<Rightarrow> ieee" where
  "binary64 q = round_to 53 (- 1022) 1023 q"

text \<open>The cast of a double to float32, as the assignment into a float32 array makes it.\<close>

definition to_binary32 :: "ieee \<Rightarrow> ieee" where
  "to_binary32 d = (case d of Num q \<Rightarrow> round_to 24 (- 126) 127 q | _ \<Rightarrow> d)"

text \<open>A value is a binary32 value when the rounding to binary32 leaves it as it is.\<close>

definition is_binary32 :: "ieee \<Rightarrow> bool" where
  "is_binary32 v = (to_binary32 v = v)"

text \<open>
  The numeric interface with these floats: \<open>float(n)\<close> of an integer is the nearest
  double, or OverflowError when that is beyond the largest double; the cast is the
  rounding to binary32; the sentinel is NaN. The parsing of a string is left a parameter.
\<close>

definition ieee_numeric :: "(string \<Rightarrow> ieee option) \<Rightarrow> (ieee, ieee) numeric" where
  "ieee_numeric parse =
     \<lparr>int_to_double = (\<lambda>n. case binary64 (of_int n) of Num r \<Rightarrow> Some (Num r) | _ \<Rightarrow> None),
      str_to_double = parse,
      to_float32 = to_binary32,
      nan32 = NaN\<rparr>"

text \<open>
  The prediction \<open>0.5760770598287769\<close> of the docstring of \<open>_parse_response\<close>, the
  double it decodes to, and a server that answers it for the first of two molecules.
\<close>

definition docstring_prediction :: rat where
  "docstring_prediction = 5760770598287769 / 10 ^ 16"

definition docstring_double :: ieee where
  "docstring_double = binary64 docstring_prediction"

definition docstring_server :: "(ieee, unit) server" where
  "docstring_server rq w =
     (Inr \<lparr>status_code = 200, reason = ''OK'', content = ''[...]'', text_str = ''[...]'',
           json_result = Inr (JList
             [JDict (Map.empty(''smiles'' \<mapsto> JString ''C1=CC=CC=C1'',
                               ''prediction'' \<mapsto> JFloat docstring_double))])\<rparr>, w)"

section \<open>Properties of the parser\<close>

text \<open>The defining equations that evaluate the model on a concrete input.\<close>

lemmas model_defs = call_def endpoints_def init_def py_or_def query_endpoint_def try_request_def
  requests_post_def parse_response_def parse_entry_def py_get_def str_int_def digit_char_def
  DEFAULT_SERVER_URL_def DEFAULT_SERVER_PORT_def DEFAULT_SERVER_ENDPOINT_def
  failure_message_def bytes_repr_def escape_byte_def post_for_def Let_def

lemmas example_defs = example_numeric_def example_server_def answering_server_def
  example_params_def start_def ok_response_def two_records_def

text \<open>What one entry of the response does to its slot.\<close>

lemma parse_entry_not_dict:
  "\<forall>m. x \<noteq> JDict m \<Longrightarrow> parse_entry L x = Inl AttributeError"
  by (cases x) (simp_all add: parse_entry_def py_get_def)

lemma parse_entry_no_prediction:
  "m ''prediction'' = None \<or> m ''prediction'' = Some JNull \<Longrightarrow> parse_entry L (JDict m) = Inr None"
  by (auto simp: parse_entry_def py_get_def)

lemma parse_entry_stored:
  "m ''prediction'' = Some p \<Longrightarrow> p \<noteq> JNull \<Longrightarrow> py_float L p = Inr x \<Longrightarrow>
   parse_entry L (JDict m) = Inr (Some (to_float32 L x))"
  by (cases p) (auto simp: parse_entry_def py_get_def)

lemma parse_entry_coercion_fails:
  "m ''prediction'' = Some p \<Longrightarrow> py_float L p = Inl e \<Longrightarrow>
   parse_entry L (JDict m) = (if caught_in_parse e then Inr None else Inl e)"
  by (cases p) (auto simp: parse_entry_def py_get_def)

lemma parse_entry_huge_integer:
  "parse_entry example_numeric (JDict (Map.empty(''prediction'' \<mapsto> JInt (10 ^ 400))))
     = Inl OverflowError"
  by (simp add: parse_entry_def py_get_def example_numeric_def)

lemma py_float_errors:
  "py_float L p = Inl e \<Longrightarrow> e = TypeError \<or> e = OverflowError \<or> (\<exists>s. e = ValueError s)"
  by (cases p) (auto split: option.splits)

lemma parse_entry_uncaught:
  "parse_entry L x = Inl e \<Longrightarrow> e = AttributeError \<or> e = OverflowError"
  by (cases x) (auto simp: parse_entry_def py_get_def split: option.splits json.splits sum.splits if_splits dest: py_float_errors)

lemma parse_loop_length:
  "parse_loop L n results i xs = Inr v \<Longrightarrow> length v = length results"
  by (induction xs arbitrary: results i) (auto split: if_splits sum.splits option.splits)

lemma parse_loop_take:
  "parse_loop L n results i xs = parse_loop L n results i (take (n - i) xs)"
proof (induction xs arbitrary: results i)
  case Nil
  show ?case by simp
next
  case (Cons x xs)
  show ?case
  proof (cases "i \<ge> n")
    case True
    then show ?thesis by simp
  next
    case False
    then have "n - i = Suc (n - (i + 1))" by simp
    then show ?thesis using False Cons[of _ "i + 1"]
      by (simp split: sum.splits option.splits)
  qed
qed

lemma parse_loop_nth:
  "parse_loop L n results i xs = Inr v \<Longrightarrow> length results = n \<Longrightarrow> j < n \<Longrightarrow>
   v ! j = (if i \<le> j \<and> j < i + length xs
            then slot_of L (results ! j) (xs ! (j - i))
            else results ! j)"
proof (induction xs arbitrary: results i)
  case Nil
  then show ?case by auto
next
  case (Cons x xs)
  show ?case
  proof (cases "i \<ge> n")
    case True
    with Cons.prems show ?thesis by auto
  next
    case False
    note lt = this
    show ?thesis
    proof (cases "parse_entry L x")
      case (Inl e)
      with Cons.prems lt show ?thesis by simp
    next
      case (Inr r)
      show ?thesis
      proof (cases r)
        case None
        with Inr Cons.prems lt have "parse_loop L n results (i + 1) xs = Inr v" by simp
        from Cons.IH[OF this Cons.prems(2,3)] Inr None show ?thesis
          by (cases "j = i") (auto simp: slot_of_def nth_Cons' Suc_diff_le not_le less_Suc_eq_le)
      next
        case (Some y)
        with Inr Cons.prems lt have "parse_loop L n (results[i := y]) (i + 1) xs = Inr v" by simp
        from Cons.IH[OF this _ Cons.prems(3)] Cons.prems(2) Inr Some lt show ?thesis
          by (cases "j = i") (auto simp: slot_of_def nth_Cons' Suc_diff_le not_le less_Suc_eq_le)
      qed
    qed
  qed
qed

lemma parse_loop_returns:
  "(\<And>k. k < length xs \<Longrightarrow> i + k < n \<Longrightarrow> \<exists>r. parse_entry L (xs ! k) = Inr r) \<Longrightarrow>
   \<exists>v. parse_loop L n results i xs = Inr v"
proof (induction xs arbitrary: results i)
  case Nil
  show ?case by simp
next
  case (Cons x xs)
  show ?case
  proof (cases "i \<ge> n")
    case True
    then show ?thesis by simp
  next
    case False
    then obtain r where r: "parse_entry L x = Inr r" using Cons.prems[of 0] by auto
    have step: "\<And>res. \<exists>v. parse_loop L n res (i + 1) xs = Inr v"
    proof (rule Cons.IH)
      fix res k assume "k < length xs" "i + 1 + k < n"
      then show "\<exists>r. parse_entry L (xs ! k) = Inr r" using Cons.prems[of "Suc k"] by simp
    qed
    show ?thesis using False r step by (cases r) simp_all
  qed
qed

text \<open>Every vector that leaves the parser or one iteration has the length of the batch.\<close>

lemma parse_response_length:
  "parse_response L j n = Inr v \<Longrightarrow> length v = n"
  by (cases j) (auto simp: parse_response_def dest: parse_loop_length)

lemma query_endpoint_length:
  "query_endpoint L srv smilies ep s = (Inr v, s') \<Longrightarrow> length v = length smilies"
  by (auto simp: query_endpoint_def try_request_def Let_def
           split: prod.splits sum.splits if_splits dest: parse_response_length)

section \<open>Properties of one iteration and of the loop\<close>

lemma query_endpoint_sent:
  "sent (snd (query_endpoint L srv smilies ep s)) = sent s @ [post_for smilies ep]"
  by (auto simp: query_endpoint_def try_request_def requests_post_def post_for_def Let_def
           split: prod.splits sum.splits if_splits)

lemma query_endpoint_world:
  "world (snd (query_endpoint L srv smilies ep s)) = snd (srv (post_for smilies ep) (world s))"
  by (auto simp: query_endpoint_def try_request_def requests_post_def post_for_def Let_def
           split: prod.splits sum.splits if_splits)

lemma query_endpoint_transport_failure:
  "srv (post_for smilies ep) (world s) = (Inl e, w') \<Longrightarrow> is_RequestException e \<Longrightarrow>
   query_endpoint L srv smilies ep s =
     (Inr (replicate (length smilies) (nan32 L)), \<lparr>sent = sent s @ [post_for smilies ep], world = w'\<rparr>)"
  by (auto simp: query_endpoint_def try_request_def requests_post_def post_for_def Let_def
           split: prod.splits)

lemma query_endpoint_bad_status:
  "srv (post_for smilies ep) (world s) = (Inr response, w') \<Longrightarrow> status_code response \<noteq> 200 \<Longrightarrow>
   query_endpoint L srv smilies ep s =
     (Inl (ValueError (failure_message response)), \<lparr>sent = sent s @ [post_for smilies ep], world = w'\<rparr>)"
  by (auto simp: query_endpoint_def try_request_def requests_post_def post_for_def Let_def
           split: prod.splits)

lemma score_loop_append:
  "score_loop L srv smilies (pre @ rest) acc s =
     (case score_loop L srv smilies pre acc s of
        (Inl e, s') \<Rightarrow> (Inl e, s')
      | (Inr acc', s') \<Rightarrow> score_loop L srv smilies rest acc' s')"
  by (induction pre arbitrary: acc s) (auto split: prod.splits sum.splits)

lemma score_loop_acc:
  "score_loop L srv smilies eps acc s =
     (case score_loop L srv smilies eps [] s of
        (Inl e, s') \<Rightarrow> (Inl e, s')
      | (Inr rs, s') \<Rightarrow> (Inr (acc @ rs), s'))"
proof (induction eps arbitrary: acc s)
  case Nil
  show ?case by simp
next
  case (Cons ep eps)
  obtain out s1 where q: "query_endpoint L srv smilies ep s = (out, s1)" by (cases "query_endpoint L srv smilies ep s")
  show ?case
  proof (cases out)
    case (Inl e)
    with q show ?thesis by simp
  next
    case (Inr r)
    with q show ?thesis
      using Cons.IH[of "acc @ [r]" s1] Cons.IH[of "[r]" s1]
      by (auto split: prod.splits sum.splits)
  qed
qed

lemma score_loop_shape:
  "score_loop L srv smilies eps acc s = (Inr rs, s') \<Longrightarrow>
   length rs = length acc + length eps \<and>
   (\<forall>v \<in> set (drop (length acc) rs). length v = length smilies)"
proof (induction eps arbitrary: acc s)
  case Nil
  then show ?case by simp
next
  case (Cons ep eps)
  from Cons.prems obtain r s1 where q: "query_endpoint L srv smilies ep s = (Inr r, s1)"
    and rest: "score_loop L srv smilies eps (acc @ [r]) s1 = (Inr rs, s')"
    by (auto split: prod.splits sum.splits)
  from Cons.IH[OF rest] have len: "length rs = length acc + 1 + length eps"
    and tl: "\<forall>v \<in> set (drop (length acc + 1) rs). length v = length smilies" by simp_all
  from rest score_loop_acc[of L srv smilies eps "acc @ [r]" s1]
  obtain rs' where "rs = (acc @ [r]) @ rs'" by (auto split: prod.splits sum.splits)
  then have "drop (length acc) rs = r # drop (length acc + 1) rs" by simp
  with tl query_endpoint_length[OF q] len show ?case by simp
qed

lemma score_loop_sent:
  "\<exists>k \<le> length eps.
     sent (snd (score_loop L srv smilies eps acc s)) = sent s @ map (post_for smilies) (take k eps) \<and>
     (\<forall>rs. fst (score_loop L srv smilies eps acc s) = Inr rs \<longrightarrow> k = length eps)"
proof (induction eps arbitrary: acc s)
  case Nil
  show ?case by simp
next
  case (Cons ep eps)
  obtain out s1 where q: "query_endpoint L srv smilies ep s = (out, s1)" by (cases "query_endpoint L srv smilies ep s")
  have s1: "sent s1 = sent s @ [post_for smilies ep]" using query_endpoint_sent[of L srv smilies ep s] q by simp
  show ?case
  proof (cases out)
    case (Inl e)
    with q s1 show ?thesis by (intro exI[of _ 1]) simp
  next
    case (Inr r)
    from Cons.IH[of "acc @ [r]" s1] obtain k where k: "k \<le> length eps"
      "sent (snd (score_loop L srv smilies eps (acc @ [r]) s1)) = sent s1 @ map (post_for smilies) (take k eps)"
      "\<forall>rs. fst (score_loop L srv smilies eps (acc @ [r]) s1) = Inr rs \<longrightarrow> k = length eps" by blast
    with q s1 Inr show ?thesis by (intro exI[of _ "Suc k"]) simp
  qed
qed

section \<open>Shape of the result\<close>

text \<open>
  C1. With three parameter lists of the same length \<open>E\<close> and a batch of any size
  \<open>N\<close>, a call that returns gives a result of exactly \<open>E\<close> vectors, each of
  length exactly \<open>N\<close>, whatever the servers answered: the server \<open>srv\<close> and its
  state are arbitrary, so every response body and every failure of the transport is
  covered.
\<close>

theorem call_shape:
  assumes "call L srv self smilies s = (Inr rs, s')"
    and "length (server_urls self) = E"
    and "length (server_ports self) = E"
    and "length (server_endpoints self) = E"
  shows "length (scores rs) = E \<and> (\<forall>v \<in> set (scores rs). length v = length smilies)"
proof -
  from assms(1) obtain acc where run: "score_loop L srv smilies (endpoints self) [] s = (Inr acc, s')"
    and rs: "rs = \<lparr>scores = acc\<rparr>"
    by (auto simp: call_def split: prod.splits sum.splits)
  have "length (endpoints self) = E" using assms(2-4) by (simp add: endpoints_def)
  with score_loop_shape[OF run] rs show ?thesis by simp
qed

text \<open>
  At a concrete input: two endpoints, two molecules; the first server answers, the second
  refuses the connection.
\<close>

theorem call_shape_witness:
  "fst (call example_numeric example_server (init (example_params [''http://a'', ''http://b'']))
          [''CCO'', ''C''] start)
     = Inr \<lparr>scores = [[Some (1 / 2), Some 3], [None, None]]\<rparr> \<and>
   length (scores \<lparr>scores = [[Some (1 / 2), Some 3], [None :: rat option, None]]\<rparr>) = 2 \<and>
   map length (scores \<lparr>scores = [[Some (1 / 2), Some 3], [None :: rat option, None]]\<rparr>)
     = [length [''CCO'', ''C''], length [''CCO'', ''C'']]"
proof -
  let ?self = "init (example_params [''http://a'', ''http://b''])"
  let ?run = "call example_numeric example_server ?self [''CCO'', ''C''] start"
  have out: "fst ?run = Inr \<lparr>scores = [[Some (1 / 2), Some 3], [None, None]]\<rparr>"
    by (simp add: model_defs example_defs)
  then have run: "?run = (Inr \<lparr>scores = [[Some (1 / 2), Some 3], [None, None]]\<rparr>, snd ?run)"
    by (simp add: prod_eq_iff)
  have "length (server_urls ?self) = 2" "length (server_ports ?self) = 2"
    "length (server_endpoints ?self) = 2"
    by (simp_all add: init_def py_or_def example_params_def)
  from call_shape[OF run this] out show ?thesis by simp
qed

section \<open>Failures of an endpoint\<close>

text \<open>
  A call whose loop has passed the endpoints \<open>pre\<close> without raising and is at the
  endpoint \<open>ep\<close>, with \<open>rest\<close> to follow.
\<close>

lemma call_split:
  assumes "endpoints self = pre @ ep # rest"
    and "score_loop L srv smilies pre [] s = (Inr acc, s1)"
  shows "call L srv self smilies s =
     (case query_endpoint L srv smilies ep s1 of
        (Inl e, s2) \<Rightarrow> (Inl e, s2)
      | (Inr v, s2) \<Rightarrow>
          (case score_loop L srv smilies rest [] s2 of
             (Inl e, s3) \<Rightarrow> (Inl e, s3)
           | (Inr vs, s3) \<Rightarrow> (Inr \<lparr>scores = acc @ [v] @ vs\<rparr>, s3)))"
proof -
  have "score_loop L srv smilies (endpoints self) [] s = score_loop L srv smilies (ep # rest) acc s1"
    using assms by (simp add: score_loop_append)
  also have "\<dots> = (case query_endpoint L srv smilies ep s1 of
        (Inl e, s2) \<Rightarrow> (Inl e, s2)
      | (Inr v, s2) \<Rightarrow>
          (case score_loop L srv smilies rest [] s2 of
             (Inl e, s3) \<Rightarrow> (Inl e, s3)
           | (Inr vs, s3) \<Rightarrow> (Inr (acc @ [v] @ vs), s3)))"
  proof (cases "query_endpoint L srv smilies ep s1")
    case (Pair out s2)
    show ?thesis
    proof (cases out)
      case (Inl e)
      with Pair show ?thesis by simp
    next
      case (Inr v)
      with Pair show ?thesis
        using score_loop_acc[of L srv smilies rest "acc @ [v]" s2]
        by (simp split: prod.splits sum.splits)
    qed
  qed
  finally show ?thesis
    by (simp add: call_def split: prod.splits sum.splits)
qed

text \<open>
  C2. When the request to an endpoint raises a RequestException (connection refused,
  timeout, DNS failure: every exception of the transport is one), the exception is
  caught: the iteration gives a vector of the batch length filled with NaN, and the call
  goes on with the remaining endpoints from the state the failed request left. The
  vectors \<open>acc\<close> of the endpoints before it and the vectors \<open>vs\<close> that the endpoints
  after it produce stand unchanged around the NaN vector; the call raises only if one of
  the remaining endpoints raises an error of its own.
\<close>

theorem transport_failure_isolated:
  assumes "endpoints self = pre @ ep # rest"
    and "score_loop L srv smilies pre [] s = (Inr acc, s1)"
    and "srv (post_for smilies ep) (world s1) = (Inl e, w2)"
    and "is_RequestException e"
  shows "query_endpoint L srv smilies ep s1 =
           (Inr (replicate (length smilies) (nan32 L)),
            \<lparr>sent = sent s1 @ [post_for smilies ep], world = w2\<rparr>) \<and>
         call L srv self smilies s =
           (case score_loop L srv smilies rest []
                   \<lparr>sent = sent s1 @ [post_for smilies ep], world = w2\<rparr> of
              (Inl x, s3) \<Rightarrow> (Inl x, s3)
            | (Inr vs, s3) \<Rightarrow>
                (Inr \<lparr>scores = acc @ [replicate (length smilies) (nan32 L)] @ vs\<rparr>, s3))"
proof -
  have q: "query_endpoint L srv smilies ep s1 =
           (Inr (replicate (length smilies) (nan32 L)),
            \<lparr>sent = sent s1 @ [post_for smilies ep], world = w2\<rparr>)"
    using assms(3,4) by (rule query_endpoint_transport_failure)
  show ?thesis using q call_split[OF assms(1,2)] by simp
qed

text \<open>
  At a concrete input: of three endpoints the second refuses the connection; the first
  and the third answer.
\<close>

theorem transport_failure_isolated_witness:
  "endpoints (init (example_params [''http://a'', ''http://b'', ''http://a'']))
     = [(''http://a'', 80, ''sf'')] @ (''http://b'', 80, ''sf'') # [(''http://a'', 80, ''sf'')] \<and>
   fst (score_loop example_numeric example_server [''CCO'', ''C''] [(''http://a'', 80, ''sf'')] [] start)
     = Inr [[Some (1 / 2), Some 3]] \<and>
   fst (example_server (post_for [''CCO'', ''C''] (''http://b'', 80, ''sf'')) ())
     = Inl (RequestException ''connection refused'') \<and>
   fst (call example_numeric example_server
          (init (example_params [''http://a'', ''http://b'', ''http://a''])) [''CCO'', ''C''] start)
     = Inr \<lparr>scores = [[Some (1 / 2), Some 3], [None, None], [Some (1 / 2), Some 3]]\<rparr>"
proof -
  let ?self = "init (example_params [''http://a'', ''http://b'', ''http://a''])"
  let ?b = "[''CCO'', ''C'']"
  let ?pre = "score_loop example_numeric example_server ?b [(''http://a'', 80, ''sf'')] [] start"
  have h1: "endpoints ?self
     = [(''http://a'', 80, ''sf'')] @ (''http://b'', 80, ''sf'') # [(''http://a'', 80, ''sf'')]"
    by (simp add: model_defs example_defs)
  have out: "fst ?pre = Inr [[Some (1 / 2), Some 3]]"
    by (simp add: model_defs example_defs)
  then have h2: "?pre = (Inr [[Some (1 / 2), Some 3]], snd ?pre)"
    by (simp add: prod_eq_iff)
  have h3: "example_server (post_for ?b (''http://b'', 80, ''sf'')) (world (snd ?pre))
     = (Inl (RequestException ''connection refused''), ())"
    by (simp add: model_defs example_defs)
  have h4: "is_RequestException (RequestException ''connection refused'')" by simp
  from transport_failure_isolated[OF h1 h2 h3 h4]
  have "fst (call example_numeric example_server ?self ?b start)
     = Inr \<lparr>scores = [[Some (1 / 2), Some 3], [None, None], [Some (1 / 2), Some 3]]\<rparr>"
    by (simp add: model_defs example_defs)
  with h1 out h3 show ?thesis by simp
qed

text \<open>The message of the error for a status other than 200 holds the four parts.\<close>

lemma failure_message_parts:
  "sublist (str_int (status_code r)) (failure_message r)"
  "sublist (reason r) (failure_message r)"
  "sublist (bytes_repr (content r)) (failure_message r)"
  "sublist (text_str r) (failure_message r)"
proof -
  let ?a = "''Synthetic feasibility API failed.'' @ [CHR 0x0A] @ ''Status Code: ''"
  let ?b = "[CHR 0x0A] @ ''Reason: (''"
  let ?c = "'')'' @ [CHR 0x0A] @ ''Response content: ''"
  let ?d = "[CHR 0x0A] @ ''Response text: ''"
  have m: "failure_message r = ?a @ str_int (status_code r) @ ?b @ reason r @ ?c @
      bytes_repr (content r) @ ?d @ text_str r"
    by (simp add: failure_message_def)
  show "sublist (str_int (status_code r)) (failure_message r)"
    unfolding m by (rule sublist_appendI)
  have "failure_message r = (?a @ str_int (status_code r) @ ?b) @ reason r @
      (?c @ bytes_repr (content r) @ ?d @ text_str r)"
    unfolding m by simp
  then show "sublist (reason r) (failure_message r)"
    by (metis sublist_appendI)
  have "failure_message r = (?a @ str_int (status_code r) @ ?b @ reason r @ ?c) @
      bytes_repr (content r) @ (?d @ text_str r)"
    unfolding m by simp
  then show "sublist (bytes_repr (content r)) (failure_message r)"
    by (metis sublist_appendI)
  have "failure_message r = (?a @ str_int (status_code r) @ ?b @ reason r @ ?c @
      bytes_repr (content r) @ ?d) @ text_str r @ []"
    unfolding m by simp
  then show "sublist (text_str r) (failure_message r)"
    by (metis sublist_appendI)
qed

text \<open>
  C3. When an endpoint answers with a status code other than 200, the call raises a
  ValueError whose message holds the status code, the reason phrase, the raw content
  (as Python prints bytes) and the text of the response. The error is not caught: the
  whole call ends with it and returns no result, and the last request sent is the one
  to this endpoint, so none of the remaining endpoints is queried.
\<close>

theorem bad_status_aborts:
  assumes "endpoints self = pre @ ep # rest"
    and "score_loop L srv smilies pre [] s = (Inr acc, s1)"
    and "srv (post_for smilies ep) (world s1) = (Inr response, w2)"
    and "status_code response \<noteq> 200"
  shows "call L srv self smilies s =
           (Inl (ValueError (failure_message response)),
            \<lparr>sent = sent s1 @ [post_for smilies ep], world = w2\<rparr>) \<and>
         sublist (str_int (status_code response)) (failure_message response) \<and>
         sublist (reason response) (failure_message response) \<and>
         sublist (bytes_repr (content response)) (failure_message response) \<and>
         sublist (text_str response) (failure_message response)"
proof -
  have "query_endpoint L srv smilies ep s1 =
     (Inl (ValueError (failure_message response)),
      \<lparr>sent = sent s1 @ [post_for smilies ep], world = w2\<rparr>)"
    using assms(3,4) by (rule query_endpoint_bad_status)
  then show ?thesis using call_split[OF assms(1,2)] failure_message_parts[of response] by simp
qed

text \<open>
  At a concrete input: of three endpoints the second answers 500; the third is never
  queried.
\<close>

theorem bad_status_aborts_witness:
  "endpoints (init (example_params [''http://a'', ''http://c'', ''http://b'']))
     = [(''http://a'', 80, ''sf'')] @ (''http://c'', 80, ''sf'') # [(''http://b'', 80, ''sf'')] \<and>
   fst (score_loop example_numeric example_server [''CCO'', ''C''] [(''http://a'', 80, ''sf'')] [] start)
     = Inr [[Some (1 / 2), Some 3]] \<and>
   map_sum id status_code (fst (example_server (post_for [''CCO'', ''C''] (''http://c'', 80, ''sf'')) ()))
     = Inr 500 \<and>
   fst (call example_numeric example_server
          (init (example_params [''http://a'', ''http://c'', ''http://b''])) [''CCO'', ''C''] start)
     = Inl (ValueError
         (''Synthetic feasibility API failed.'' @ [CHR 0x0A] @
          ''Status Code: 500'' @ [CHR 0x0A] @
          ''Reason: (Internal Server Error)'' @ [CHR 0x0A] @
          ''Response content: b'' @ [CHR 0x27] @ ''boom'' @ [CHR 0x27, CHR 0x0A] @
          ''Response text: boom'')) \<and>
   map rq_url (sent (snd (call example_numeric example_server
          (init (example_params [''http://a'', ''http://c'', ''http://b''])) [''CCO'', ''C''] start)))
     = [''http://a:80/sf'', ''http://c:80/sf'']"
proof -
  let ?self = "init (example_params [''http://a'', ''http://c'', ''http://b''])"
  let ?b = "[''CCO'', ''C'']"
  let ?pre = "score_loop example_numeric example_server ?b [(''http://a'', 80, ''sf'')] [] start"
  let ?r = "\<lparr>status_code = 500, reason = ''Internal Server Error'', content = ''boom'',
              text_str = ''boom'', json_result = Inl (RequestException ''no JSON'') :: exn + rat json\<rparr>"
  have h1: "endpoints ?self
     = [(''http://a'', 80, ''sf'')] @ (''http://c'', 80, ''sf'') # [(''http://b'', 80, ''sf'')]"
    by (simp add: model_defs example_defs)
  have out: "fst ?pre = Inr [[Some (1 / 2), Some 3]]"
    by (simp add: model_defs example_defs)
  then have h2: "?pre = (Inr [[Some (1 / 2), Some 3]], snd ?pre)"
    by (simp add: prod_eq_iff)
  have log: "map rq_url (sent (snd ?pre)) = [''http://a:80/sf'']"
    by (simp add: model_defs example_defs)
  have h3: "example_server (post_for ?b (''http://c'', 80, ''sf'')) (world (snd ?pre)) = (Inr ?r, ())"
    by (simp add: model_defs example_defs)
  have h4: "status_code ?r \<noteq> 200" by simp
  from bad_status_aborts[OF h1 h2 h3 h4]
  have "call example_numeric example_server ?self ?b start =
      (Inl (ValueError (failure_message ?r)),
       \<lparr>sent = sent (snd ?pre) @ [post_for ?b (''http://c'', 80, ''sf'')], world = ()\<rparr>)"
    by simp
  then have "fst (call example_numeric example_server ?self ?b start) = Inl (ValueError (failure_message ?r))"
    and "map rq_url (sent (snd (call example_numeric example_server ?self ?b start)))
      = [''http://a:80/sf'', ''http://c:80/sf'']"
    using log by (simp_all add: post_for_def str_int_def digit_char_def)
  moreover have "failure_message ?r =
          ''Synthetic feasibility API failed.'' @ [CHR 0x0A] @
          ''Status Code: 500'' @ [CHR 0x0A] @
          ''Reason: (Internal Server Error)'' @ [CHR 0x0A] @
          ''Response content: b'' @ [CHR 0x27] @ ''boom'' @ [CHR 0x27, CHR 0x0A] @
          ''Response text: boom''"
    by (simp add: model_defs)
  moreover have "map_sum id status_code (fst (example_server (post_for ?b (''http://c'', 80, ''sf'')) ())) = Inr 500"
    by (simp add: model_defs example_defs)
  ultimately show ?thesis using h1 out by simp
qed

section \<open>Entries of the response\<close>

text \<open>
  C4. The claim is that an entry which is no well-formed record leaves its slot NaN and
  never makes the parse raise. The code calls \<open>result.get\<close> on the entry inside the
  \<open>try\<close>, and its handler names ValueError, TypeError and KeyError only: for an entry
  that is no \<open>dict\<close> the call raises AttributeError, which leaves the parser and, not
  being a RequestException, the whole call. Here the response is the list of one string,
  and then a server that answers a list of strings.
\<close>

theorem non_dict_entry_raises:
  "parse_response example_numeric (JList [JString ''CCO'']) 1 = Inl AttributeError \<and>
   fst (call example_numeric example_server (init (example_params [''http://d'']))
          [''CCO'', ''C''] start) = Inl AttributeError"
  by (simp add: model_defs example_defs)

section \<open>Positions\<close>

text \<open>
  What the parser does with a list. Entries from the batch size on are ignored, whatever
  they are: the parse of the list is the parse of its first \<open>n\<close> entries. A vector
  that the parser returns has exactly \<open>n\<close> slots; a slot within the response holds
  what its entry gave (the stored prediction, or NaN when the entry stored nothing), a
  slot beyond the end of the response is NaN. The parser returns whenever none of the
  first \<open>n\<close> entries raises.
\<close>

theorem parse_response_positional:
  "parse_response L (JList xs) n = parse_response L (JList (take n xs)) n \<and>
   (\<forall>v. parse_response L (JList xs) n = Inr v \<longrightarrow>
      length v = n \<and>
      (\<forall>i<n. v ! i = (if i < length xs then slot_of L (nan32 L) (xs ! i) else nan32 L))) \<and>
   ((\<forall>i. i < n \<and> i < length xs \<longrightarrow> (\<exists>r. parse_entry L (xs ! i) = Inr r)) \<longrightarrow>
      (\<exists>v. parse_response L (JList xs) n = Inr v))"
proof (intro conjI allI impI)
  show "parse_response L (JList xs) n = parse_response L (JList (take n xs)) n"
    using parse_loop_take[of L n "replicate n (nan32 L)" 0 xs] by (simp add: parse_response_def)
next
  fix v assume v: "parse_response L (JList xs) n = Inr v"
  then show "length v = n" by (rule parse_response_length)
  fix i assume i: "i < n"
  from v have "parse_loop L n (replicate n (nan32 L)) 0 xs = Inr v"
    by (simp add: parse_response_def)
  from parse_loop_nth[OF this _ i] i
  show "v ! i = (if i < length xs then slot_of L (nan32 L) (xs ! i) else nan32 L)" by simp
next
  assume "\<forall>i. i < n \<and> i < length xs \<longrightarrow> (\<exists>r. parse_entry L (xs ! i) = Inr r)"
  then have "\<exists>v. parse_loop L n (replicate n (nan32 L)) 0 xs = Inr v"
    by (intro parse_loop_returns) simp
  then show "\<exists>v. parse_response L (JList xs) n = Inr v" by (simp add: parse_response_def)
qed

text \<open>
  At concrete inputs: two records for a batch of three, and three entries for a batch of
  two (the third is no record, and is never looked at).
\<close>

theorem parse_response_positional_witness:
  "parse_response example_numeric (JList two_records) 3 = Inr [Some (1 / 2), Some 3, None] \<and>
   parse_response example_numeric (JList (two_records @ [JString ''more''])) 2
     = Inr [Some (1 / 2), Some 3]"
proof -
  have e: "parse_entry example_numeric (two_records ! 0) = Inr (Some (Some (1 / 2)))"
    "parse_entry example_numeric (two_records ! 1) = Inr (Some (Some 3))"
    by (simp_all add: model_defs example_defs)
  have len: "length two_records = 2" by (simp add: two_records_def)
  have ok: "\<forall>i. i < 3 \<and> i < length two_records \<longrightarrow> (\<exists>r. parse_entry example_numeric (two_records ! i) = Inr r)"
    using e len by (auto simp: less_Suc_eq numeral_2_eq_2)
  from parse_response_positional[of example_numeric two_records 3] ok
  obtain v where v: "parse_response example_numeric (JList two_records) 3 = Inr v"
    and l: "length v = 3"
    and n: "\<forall>i<3. v ! i = (if i < length two_records then slot_of example_numeric (nan32 example_numeric) (two_records ! i)
                else nan32 example_numeric)"
    by blast
  from n len e have "v ! 0 = Some (1 / 2)" "v ! 1 = Some 3" "v ! 2 = None"
    by (simp_all add: slot_of_def example_numeric_def)
  with l have "v = [Some (1 / 2), Some 3, None]"
    by (cases v; cases "tl v"; cases "tl (tl v)") (auto simp: numeral_3_eq_3)
  moreover
  have "parse_response example_numeric (JList (two_records @ [JString ''more''])) 2
      = parse_response example_numeric (JList (take 2 (two_records @ [JString ''more'']))) 2"
    using parse_response_positional[of example_numeric "two_records @ [JString ''more'']" 2] by blast
  then have "parse_response example_numeric (JList (two_records @ [JString ''more''])) 2
      = Inr [Some (1 / 2), Some 3]"
    by (simp add: model_defs example_defs numeral_2_eq_2)
  ultimately show ?thesis using v by simp
qed

text \<open>
  C5. The claim is that for every response that is a list the output has exactly as many
  slots as the batch, filled by position. For a list whose entries below the batch size
  are records the code does so (\<open>parse_response_positional\<close>). For a list with an
  entry below the batch size that is no \<open>dict\<close> there is no output at all: the
  AttributeError of \<open>result.get\<close> is not among the exceptions the handler in the loop
  names, and the parser raises it. Here the response holds two records and a string, for
  a batch of three.
\<close>

theorem list_response_no_output:
  "parse_response example_numeric (JList (two_records @ [JString ''CCO''])) 3
     = Inl AttributeError"
  by (simp add: model_defs example_defs numeral_3_eq_3)

text \<open>
  C6. A body that is not a list (an object, a number, a string, a boolean, null) gives
  the vector of the batch length filled with NaN, and no error.
\<close>

theorem parse_response_not_list:
  "\<not> is_list response_json \<Longrightarrow>
   parse_response L response_json n = Inr (replicate n (nan32 L))"
  by (cases response_json) (simp_all add: parse_response_def)

text \<open>At concrete inputs: an error object for a batch of three, a number for a batch of two.\<close>

theorem parse_response_not_list_witness:
  "parse_response example_numeric (JDict (Map.empty(''error'' \<mapsto> JString ''busy''))) 3
     = Inr [None, None, None] \<and>
   parse_response example_numeric (JFloat (1 / 2)) 2 = Inr [None, None]"
  using parse_response_not_list[of "JDict (Map.empty(''error'' \<mapsto> JString ''busy''))" example_numeric 3]
    parse_response_not_list[of "JFloat (1 / 2)" example_numeric 2]
  by (simp add: example_numeric_def numeral_3_eq_3 numeral_2_eq_2)

section \<open>Configuration and requests\<close>

text \<open>The fields of a constructed component.\<close>

lemma init_fields:
  "server_urls (init p) = py_or (server_url p) [DEFAULT_SERVER_URL]"
  "server_ports (init p) = py_or (server_port p) [DEFAULT_SERVER_PORT]"
  "server_endpoints (init p) = py_or (server_endpoint p) [DEFAULT_SERVER_ENDPOINT]"
  "smiles_type (init p) = ''rdkit_smiles''"
  "number_of_endpoints (init p) = length (server_urls (init p))"
  by (simp_all add: init_def Let_def)

text \<open>
  The requests of a call: one for each endpoint that the loop reaches, in the order of the
  endpoints, and one for every endpoint when the call returns.
\<close>

lemma call_sent:
  "\<exists>k \<le> length (endpoints self).
     sent (snd (call L srv self smilies s))
       = sent s @ map (post_for smilies) (take k (endpoints self)) \<and>
     (\<forall>rs. fst (call L srv self smilies s) = Inr rs \<longrightarrow> k = length (endpoints self))"
proof -
  from score_loop_sent[of "endpoints self" L srv smilies "[]" s]
  obtain k where k: "k \<le> length (endpoints self)"
    "sent (snd (score_loop L srv smilies (endpoints self) [] s))
       = sent s @ map (post_for smilies) (take k (endpoints self))"
    "\<forall>rs. fst (score_loop L srv smilies (endpoints self) [] s) = Inr rs \<longrightarrow> k = length (endpoints self)"
    by blast
  have "snd (call L srv self smilies s) = snd (score_loop L srv smilies (endpoints self) [] s)"
    by (simp add: call_def split: prod.splits sum.splits)
  moreover have "\<And>rs. fst (call L srv self smilies s) = Inr rs \<Longrightarrow>
      \<exists>acc. fst (score_loop L srv smilies (endpoints self) [] s) = Inr acc"
    by (auto simp: call_def split: prod.splits sum.splits)
  ultimately show ?thesis using k by (intro exI[of _ k]) auto
qed

lemma call_single_endpoint:
  "endpoints self = [ep] \<Longrightarrow>
   sent (snd (call L srv self smilies s)) = sent s @ [post_for smilies ep]"
  using query_endpoint_sent[of L srv smilies ep s]
  by (auto simp: call_def split: prod.splits sum.splits)

text \<open>
  A call that raises has passed some endpoints without raising and raised in the iteration
  of the next one; its requests are the ones for these endpoints.
\<close>

lemma score_loop_raises:
  "score_loop L srv smilies eps acc s = (Inl e, s') \<Longrightarrow>
   \<exists>pre ep rest acc' s1.
     eps = pre @ ep # rest \<and>
     score_loop L srv smilies pre acc s = (Inr acc', s1) \<and>
     query_endpoint L srv smilies ep s1 = (Inl e, s')"
proof (induction eps arbitrary: acc s)
  case Nil
  then show ?case by simp
next
  case (Cons x eps)
  obtain out s2 where q: "query_endpoint L srv smilies x s = (out, s2)"
    by (cases "query_endpoint L srv smilies x s")
  show ?case
  proof (cases out)
    case (Inl e')
    with q Cons.prems have "query_endpoint L srv smilies x s = (Inl e, s')" by simp
    then have "x # eps = [] @ x # eps \<and>
        score_loop L srv smilies [] acc s = (Inr acc, s) \<and>
        query_endpoint L srv smilies x s = (Inl e, s')" by simp
    then show ?thesis by blast
  next
    case (Inr r)
    with q Cons.prems have "score_loop L srv smilies eps (acc @ [r]) s2 = (Inl e, s')" by simp
    from Cons.IH[OF this] obtain pre ep rest acc' s1 where
      "eps = pre @ ep # rest" "score_loop L srv smilies pre (acc @ [r]) s2 = (Inr acc', s1)"
      "query_endpoint L srv smilies ep s1 = (Inl e, s')" by blast
    with q Inr have "x # eps = (x # pre) @ ep # rest \<and>
        score_loop L srv smilies (x # pre) acc s = (Inr acc', s1) \<and>
        query_endpoint L srv smilies ep s1 = (Inl e, s')" by simp
    then show ?thesis by blast
  qed
qed

lemma score_loop_returns_sent:
  "score_loop L srv smilies eps acc s = (Inr rs, s') \<Longrightarrow>
   sent s' = sent s @ map (post_for smilies) eps"
  using score_loop_sent[of eps L srv smilies acc s] by auto

lemma call_raises:
  assumes "call L srv self smilies s = (Inl e, s')"
  shows "\<exists>pre ep rest acc s1.
     endpoints self = pre @ ep # rest \<and>
     score_loop L srv smilies pre [] s = (Inr acc, s1) \<and>
     query_endpoint L srv smilies ep s1 = (Inl e, s') \<and>
     sent s' = sent s @ map (post_for smilies) (pre @ [ep])"
proof -
  from assms have "score_loop L srv smilies (endpoints self) [] s = (Inl e, s')"
    by (auto simp: call_def split: prod.splits sum.splits)
  from score_loop_raises[OF this] obtain pre ep rest acc s1 where
    a: "endpoints self = pre @ ep # rest"
    and b: "score_loop L srv smilies pre [] s = (Inr acc, s1)"
    and c: "query_endpoint L srv smilies ep s1 = (Inl e, s')" by blast
  from query_endpoint_sent[of L srv smilies ep s1] c
  have "sent s' = sent s1 @ [post_for smilies ep]" by simp
  with score_loop_returns_sent[OF b]
  have "sent s' = sent s @ map (post_for smilies) (pre @ [ep])" by simp
  with a b c show ?thesis by blast
qed

text \<open>
  C7. A field of the parameters that is unset (\<open>None\<close> or the empty list) is replaced
  at construction by its one-element default: the URL \<open>http://localhost\<close>, the port
  5000, the path \<open>synthetic_feasibility_surrogate\<close>. With no field set there is
  exactly one endpoint, and a call sends its one request to
  \<open>http://localhost:5000/synthetic_feasibility_surrogate\<close>.
\<close>

theorem defaults_when_unset:
  "(server_url p = None \<or> server_url p = Some [] \<longrightarrow>
      server_urls (init p) = [''http://localhost'']) \<and>
   (server_port p = None \<or> server_port p = Some [] \<longrightarrow>
      server_ports (init p) = [5000]) \<and>
   (server_endpoint p = None \<or> server_endpoint p = Some [] \<longrightarrow>
      server_endpoints (init p) = [''synthetic_feasibility_surrogate'']) \<and>
   endpoints (init \<lparr>server_url = None, server_port = None, server_endpoint = None\<rparr>)
     = [(''http://localhost'', 5000, ''synthetic_feasibility_surrogate'')] \<and>
   map rq_url (sent (snd (call L srv
       (init \<lparr>server_url = None, server_port = None, server_endpoint = None\<rparr>) smilies s)))
     = map rq_url (sent s) @ [''http://localhost:5000/synthetic_feasibility_surrogate'']"
proof -
  let ?none = "\<lparr>server_url = None, server_port = None, server_endpoint = None\<rparr>"
  have e: "endpoints (init ?none) = [(''http://localhost'', 5000, ''synthetic_feasibility_surrogate'')]"
    by (simp add: endpoints_def init_fields py_or_def DEFAULT_SERVER_URL_def
        DEFAULT_SERVER_PORT_def DEFAULT_SERVER_ENDPOINT_def)
  have "rq_url (post_for smilies (''http://localhost'', 5000, ''synthetic_feasibility_surrogate'') :: 'a request)
      = ''http://localhost:5000/synthetic_feasibility_surrogate''"
    by (simp add: post_for_def str_int_def digit_char_def)
  with call_single_endpoint[OF e, of L srv smilies s]
  have "map rq_url (sent (snd (call L srv (init ?none) smilies s)))
     = map rq_url (sent s) @ [''http://localhost:5000/synthetic_feasibility_surrogate'']"
    by simp
  with e show ?thesis
    by (auto simp: init_fields py_or_def DEFAULT_SERVER_URL_def
        DEFAULT_SERVER_PORT_def DEFAULT_SERVER_ENDPOINT_def)
qed

text \<open>At concrete parameters, with fields unset both ways.\<close>

theorem defaults_when_unset_witness:
  "server_urls (init \<lparr>server_url = None, server_port = Some [], server_endpoint = Some [''sf'']\<rparr>)
     = [''http://localhost''] \<and>
   server_ports (init \<lparr>server_url = None, server_port = Some [], server_endpoint = Some [''sf'']\<rparr>)
     = [5000] \<and>
   server_endpoints (init \<lparr>server_url = Some [], server_port = Some [], server_endpoint = None\<rparr>)
     = [''synthetic_feasibility_surrogate''] \<and>
   map rq_url (sent (snd (call example_numeric example_server
       (init \<lparr>server_url = None, server_port = None, server_endpoint = None\<rparr>) [''CCO''] start)))
     = [''http://localhost:5000/synthetic_feasibility_surrogate'']"
  using defaults_when_unset[of "\<lparr>server_url = None, server_port = Some [], server_endpoint = Some [''sf'']\<rparr>"
      example_numeric example_server "[''CCO'']" start]
    defaults_when_unset[of "\<lparr>server_url = Some [], server_port = Some [], server_endpoint = None\<rparr>"
      example_numeric example_server "[''CCO'']" start]
  by (simp add: start_def)

text \<open>
  C8, as the code has it. Construction has no error result: \<open>init\<close> gives a component
  for every parameter object, whatever the lengths of its lists. The lists that are
  zipped are the lists after the substitution of the defaults: a list that is set and
  not empty is taken as it is, an unset or empty one is the one-element default. The
  loop runs over their zip, which has the length \<open>m\<close> of the shortest of them and pairs
  them position by position. A call that returns has queried exactly these \<open>m\<close>
  endpoints, in that order, and gives \<open>m\<close> vectors; a call that raises has queried the
  first \<open>k + 1\<close> of them only, for some \<open>k < m\<close>.
\<close>

theorem zip_truncates:
  assumes "self = init p"
    and "m = min (length (server_urls self))
               (min (length (server_ports self)) (length (server_endpoints self)))"
  shows "length (endpoints self) = m \<and>
    (\<forall>i<m. endpoints self ! i
               = (server_urls self ! i, server_ports self ! i, server_endpoints self ! i)) \<and>
    (\<forall>rs s'. call L srv self smilies s = (Inr rs, s') \<longrightarrow>
       length (scores rs) = m \<and>
       sent s' = sent s @ map (post_for smilies) (endpoints self)) \<and>
    (\<forall>e s'. call L srv self smilies s = (Inl e, s') \<longrightarrow>
       (\<exists>k<m. sent s' = sent s @ map (post_for smilies) (take (Suc k) (endpoints self)))) \<and>
    (\<forall>us. server_url p = Some us \<and> us \<noteq> [] \<longrightarrow> server_urls self = us) \<and>
    (\<forall>ps. server_port p = Some ps \<and> ps \<noteq> [] \<longrightarrow> server_ports self = ps) \<and>
    (\<forall>es. server_endpoint p = Some es \<and> es \<noteq> [] \<longrightarrow> server_endpoints self = es)"
proof (intro conjI allI impI)
  show len: "length (endpoints self) = m" using assms(2) by (simp add: endpoints_def)
  show "\<And>i. i < m \<Longrightarrow> endpoints self ! i
               = (server_urls self ! i, server_ports self ! i, server_endpoints self ! i)"
    using assms(2) by (simp add: endpoints_def)
  show "\<And>us. server_url p = Some us \<and> us \<noteq> [] \<Longrightarrow> server_urls self = us"
    using assms(1) by (auto simp: init_fields py_or_def)
  show "\<And>ps. server_port p = Some ps \<and> ps \<noteq> [] \<Longrightarrow> server_ports self = ps"
    using assms(1) by (auto simp: init_fields py_or_def)
  show "\<And>es. server_endpoint p = Some es \<and> es \<noteq> [] \<Longrightarrow> server_endpoints self = es"
    using assms(1) by (auto simp: init_fields py_or_def)
  show "\<exists>k<m. sent s' = sent s @ map (post_for smilies) (take (Suc k) (endpoints self))"
    if "call L srv self smilies s = (Inl e, s')" for e s'
  proof -
    from call_raises[OF that] obtain pre ep rest where
      a: "endpoints self = pre @ ep # rest"
      and b: "sent s' = sent s @ map (post_for smilies) (pre @ [ep])" by blast
    from a len have "length pre < m" by simp
    moreover from a have "take (Suc (length pre)) (endpoints self) = pre @ [ep]" by simp
    ultimately show ?thesis using b by (intro exI[of _ "length pre"]) simp
  qed
  fix rs s' assume run: "call L srv self smilies s = (Inr rs, s')"
  then obtain acc where loop: "score_loop L srv smilies (endpoints self) [] s = (Inr acc, s')"
    and rs: "rs = \<lparr>scores = acc\<rparr>"
    by (auto simp: call_def split: prod.splits sum.splits)
  from score_loop_shape[OF loop] rs len show "length (scores rs) = m" by simp
  from call_sent[of self L srv smilies s] run
  show "sent s' = sent s @ map (post_for smilies) (endpoints self)" by auto
qed

text \<open>
  At concrete parameters: three URLs, two ports, four paths, for a call that returns; and
  the hosts \<open>c\<close>, \<open>a\<close>, \<open>b\<close> with two ports, for a call that raises at \<open>c\<close>.
\<close>

theorem zip_truncates_witness:
  "length (endpoints (init \<lparr>server_url = Some [''http://a'', ''http://b'', ''http://c''],
        server_port = Some [80, 80], server_endpoint = Some [''sf'', ''sf'', ''sf'', ''sf'']\<rparr>)) = 2 \<and>
   fst (call example_numeric example_server
      (init \<lparr>server_url = Some [''http://a'', ''http://b'', ''http://c''],
        server_port = Some [80, 80], server_endpoint = Some [''sf'', ''sf'', ''sf'', ''sf'']\<rparr>)
      [''CCO'', ''C''] start) = Inr \<lparr>scores = [[Some (1 / 2), Some 3], [None, None]]\<rparr> \<and>
   map rq_url (sent (snd (call example_numeric example_server
      (init \<lparr>server_url = Some [''http://a'', ''http://b'', ''http://c''],
        server_port = Some [80, 80], server_endpoint = Some [''sf'', ''sf'', ''sf'', ''sf'']\<rparr>)
      [''CCO'', ''C''] start))) = [''http://a:80/sf'', ''http://b:80/sf''] \<and>
   isl (fst (call example_numeric example_server
      (init \<lparr>server_url = Some [''http://c'', ''http://a'', ''http://b''],
        server_port = Some [80, 80], server_endpoint = Some [''sf'', ''sf'', ''sf'']\<rparr>)
      [''CCO'', ''C''] start)) \<and>
   length (sent (snd (call example_numeric example_server
      (init \<lparr>server_url = Some [''http://c'', ''http://a'', ''http://b''],
        server_port = Some [80, 80], server_endpoint = Some [''sf'', ''sf'', ''sf'']\<rparr>)
      [''CCO'', ''C''] start))) \<le> 2"
proof -
  let ?p = "\<lparr>server_url = Some [''http://a'', ''http://b'', ''http://c''],
        server_port = Some [80, 80], server_endpoint = Some [''sf'', ''sf'', ''sf'', ''sf'']\<rparr>"
  let ?run = "call example_numeric example_server (init ?p) [''CCO'', ''C''] start"
  have m: "(2 :: nat) = min (length (server_urls (init ?p)))
               (min (length (server_ports (init ?p))) (length (server_endpoints (init ?p))))"
    by (simp add: init_fields py_or_def)
  have e: "endpoints (init ?p) = [(''http://a'', 80, ''sf''), (''http://b'', 80, ''sf'')]"
    by (simp add: endpoints_def init_fields py_or_def)
  have out: "fst ?run = Inr \<lparr>scores = [[Some (1 / 2), Some 3], [None, None]]\<rparr>"
    by (simp add: model_defs example_defs)
  then have run: "?run = (Inr \<lparr>scores = [[Some (1 / 2), Some 3], [None, None]]\<rparr>, snd ?run)"
    by (simp add: prod_eq_iff)
  from zip_truncates[OF refl m, of example_numeric example_server "[''CCO'', ''C'']" start] run
  have "length (endpoints (init ?p)) = 2"
    and "sent (snd ?run) = sent start @ map (post_for [''CCO'', ''C'']) (endpoints (init ?p))"
    by blast+
  then have first: "length (endpoints (init ?p)) = 2 \<and>
      map rq_url (sent (snd ?run)) = [''http://a:80/sf'', ''http://b:80/sf'']"
    using e by (simp add: start_def post_for_def str_int_def digit_char_def)
  let ?q = "\<lparr>server_url = Some [''http://c'', ''http://a'', ''http://b''],
        server_port = Some [80, 80], server_endpoint = Some [''sf'', ''sf'', ''sf'']\<rparr>"
  let ?run2 = "call example_numeric example_server (init ?q) [''CCO'', ''C''] start"
  have m2: "(2 :: nat) = min (length (server_urls (init ?q)))
               (min (length (server_ports (init ?q))) (length (server_endpoints (init ?q))))"
    by (simp add: init_fields py_or_def)
  have out2: "isl (fst ?run2)" by (simp add: model_defs example_defs)
  then have run2: "?run2 = (Inl (projl (fst ?run2)), snd ?run2)"
    by (simp add: prod_eq_iff)
  from zip_truncates[OF refl m2, of example_numeric example_server "[''CCO'', ''C'']" start] run2
  obtain k where "k < 2"
    "sent (snd ?run2) = sent start @ map (post_for [''CCO'', ''C'']) (take (Suc k) (endpoints (init ?q)))"
    by blast
  then have "length (sent (snd ?run2)) \<le> 2" by (simp add: start_def)
  with first out out2 show ?thesis by simp
qed

text \<open>
  C8, as the claim states it, fails. It takes the minimum over the configured lists. With
  an empty list of URLs, two ports and two paths that minimum is 0, while the component
  queries one endpoint, the default URL with the first port and path, and returns one
  vector. And the claim is for every call: with the hosts \<open>c\<close>, \<open>a\<close>, \<open>b\<close>, two
  ports and three paths the minimum is 2, while the call raises at \<open>c\<close>, which
  answers 500, and has queried one endpoint.
\<close>

theorem zip_min_of_configured_counterexample:
  "min (length ([] :: string list)) (min (length [80 :: int, 80]) (length [''sf'', ''sf''])) = 0 \<and>
   fst (call example_numeric answering_server
      (init \<lparr>server_url = Some [], server_port = Some [80, 80],
             server_endpoint = Some [''sf'', ''sf'']\<rparr>)
      [''CCO'', ''C''] start) = Inr \<lparr>scores = [[Some (1 / 2), Some 3]]\<rparr> \<and>
   map rq_url (sent (snd (call example_numeric answering_server
      (init \<lparr>server_url = Some [], server_port = Some [80, 80],
             server_endpoint = Some [''sf'', ''sf'']\<rparr>)
      [''CCO'', ''C''] start))) = [''http://localhost:80/sf''] \<and>
   min (length [''http://c'', ''http://a'', ''http://b''])
       (min (length [80 :: int, 80]) (length [''sf'', ''sf'', ''sf''])) = 2 \<and>
   isl (fst (call example_numeric example_server
      (init \<lparr>server_url = Some [''http://c'', ''http://a'', ''http://b''],
        server_port = Some [80, 80], server_endpoint = Some [''sf'', ''sf'', ''sf'']\<rparr>)
      [''CCO'', ''C''] start)) \<and>
   map rq_url (sent (snd (call example_numeric example_server
      (init \<lparr>server_url = Some [''http://c'', ''http://a'', ''http://b''],
        server_port = Some [80, 80], server_endpoint = Some [''sf'', ''sf'', ''sf'']\<rparr>)
      [''CCO'', ''C''] start))) = [''http://c:80/sf'']"
  by (simp add: model_defs example_defs)

text \<open>
  C9, as the code has it. Each iteration of the loop sends exactly one POST, whatever its
  outcome: to the address \<open>{url}:{port}/{path}\<close>, with the JSON body
  \<open>{"smiles": batch}\<close>, the header \<open>Content-Type: application/json\<close> and a timeout of
  30. A call that returns has sent exactly one such request for every endpoint, in
  order. A call that raises has passed the endpoints \<open>pre\<close> without raising and raised
  in the iteration of the next endpoint \<open>ep\<close>: it has sent exactly one such request
  for each of these, and none for the endpoints after \<open>ep\<close>.
\<close>

theorem one_post_per_endpoint:
  "sent (snd (query_endpoint L srv smilies (url, port, endpoint) s))
     = sent s @
       [\<lparr>rq_url = url @ '':'' @ str_int port @ ''/'' @ endpoint,
         rq_json = JDict (Map.empty(''smiles'' \<mapsto> JList (map JString smilies))),
         rq_headers = [(''Content-Type'', ''application/json'')],
         rq_timeout = 30\<rparr>] \<and>
   (\<forall>rs s'. call L srv self smilies s = (Inr rs, s') \<longrightarrow>
      sent s' = sent s @
        map (\<lambda>(url, port, endpoint).
               \<lparr>rq_url = url @ '':'' @ str_int port @ ''/'' @ endpoint,
                rq_json = JDict (Map.empty(''smiles'' \<mapsto> JList (map JString smilies))),
                rq_headers = [(''Content-Type'', ''application/json'')],
                rq_timeout = 30\<rparr>)
            (endpoints self)) \<and>
   (\<forall>e s'. call L srv self smilies s = (Inl e, s') \<longrightarrow>
      (\<exists>pre ep rest acc s1.
         endpoints self = pre @ ep # rest \<and>
         score_loop L srv smilies pre [] s = (Inr acc, s1) \<and>
         query_endpoint L srv smilies ep s1 = (Inl e, s') \<and>
         sent s' = sent s @
           map (\<lambda>(url, port, endpoint).
                  \<lparr>rq_url = url @ '':'' @ str_int port @ ''/'' @ endpoint,
                   rq_json = JDict (Map.empty(''smiles'' \<mapsto> JList (map JString smilies))),
                   rq_headers = [(''Content-Type'', ''application/json'')],
                   rq_timeout = 30\<rparr>)
               (pre @ [ep])))"
proof (intro conjI allI impI)
  show "sent (snd (query_endpoint L srv smilies (url, port, endpoint) s))
     = sent s @
       [\<lparr>rq_url = url @ '':'' @ str_int port @ ''/'' @ endpoint,
         rq_json = JDict (Map.empty(''smiles'' \<mapsto> JList (map JString smilies))),
         rq_headers = [(''Content-Type'', ''application/json'')],
         rq_timeout = 30\<rparr>]"
    using query_endpoint_sent[of L srv smilies "(url, port, endpoint)" s]
    unfolding post_for_def by simp
next
  fix rs s' assume "call L srv self smilies s = (Inr rs, s')"
  with call_sent[of self L srv smilies s]
  show "sent s' = sent s @
        map (\<lambda>(url, port, endpoint).
               \<lparr>rq_url = url @ '':'' @ str_int port @ ''/'' @ endpoint,
                rq_json = JDict (Map.empty(''smiles'' \<mapsto> JList (map JString smilies))),
                rq_headers = [(''Content-Type'', ''application/json'')],
                rq_timeout = 30\<rparr>)
            (endpoints self)"
    unfolding post_for_def by auto
next
  fix e s' assume "call L srv self smilies s = (Inl e, s')"
  from call_raises[OF this]
  show "\<exists>pre ep rest acc s1.
         endpoints self = pre @ ep # rest \<and>
         score_loop L srv smilies pre [] s = (Inr acc, s1) \<and>
         query_endpoint L srv smilies ep s1 = (Inl e, s') \<and>
         sent s' = sent s @
           map (\<lambda>(url, port, endpoint).
                  \<lparr>rq_url = url @ '':'' @ str_int port @ ''/'' @ endpoint,
                   rq_json = JDict (Map.empty(''smiles'' \<mapsto> JList (map JString smilies))),
                   rq_headers = [(''Content-Type'', ''application/json'')],
                   rq_timeout = 30\<rparr>)
               (pre @ [ep])"
    unfolding post_for_def by blast
qed

text \<open>
  At concrete inputs: two endpoints and two molecules, for a call that returns; and the
  hosts \<open>a\<close>, \<open>c\<close>, \<open>b\<close>, for a call that raises at \<open>c\<close>.
\<close>

theorem one_post_per_endpoint_witness:
  "fst (call example_numeric example_server (init (example_params [''http://b'', ''http://a'']))
          [''CCO'', ''C''] start)
     = Inr \<lparr>scores = [[None, None], [Some (1 / 2), Some 3]]\<rparr> \<and>
   map rq_url (sent (snd (call example_numeric example_server
        (init (example_params [''http://b'', ''http://a''])) [''CCO'', ''C''] start)))
     = [''http://b:80/sf'', ''http://a:80/sf''] \<and>
   map rq_headers (sent (snd (call example_numeric example_server
        (init (example_params [''http://b'', ''http://a''])) [''CCO'', ''C''] start)))
     = [[(''Content-Type'', ''application/json'')], [(''Content-Type'', ''application/json'')]] \<and>
   map rq_timeout (sent (snd (call example_numeric example_server
        (init (example_params [''http://b'', ''http://a''])) [''CCO'', ''C''] start)))
     = [30, 30] \<and>
   map rq_json (sent (snd (call example_numeric example_server
        (init (example_params [''http://b'', ''http://a''])) [''CCO'', ''C''] start)))
     = [JDict (Map.empty(''smiles'' \<mapsto> JList [JString ''CCO'', JString ''C''])),
        JDict (Map.empty(''smiles'' \<mapsto> JList [JString ''CCO'', JString ''C'']))] \<and>
   isl (fst (call example_numeric example_server
        (init (example_params [''http://a'', ''http://c'', ''http://b''])) [''CCO'', ''C''] start)) \<and>
   sent (snd (call example_numeric example_server
        (init (example_params [''http://a'', ''http://c'', ''http://b''])) [''CCO'', ''C''] start))
     \<noteq> []"
proof -
  let ?self = "init (example_params [''http://b'', ''http://a''])"
  let ?run = "call example_numeric example_server ?self [''CCO'', ''C''] start"
  have e: "endpoints ?self = [(''http://b'', 80, ''sf''), (''http://a'', 80, ''sf'')]"
    by (simp add: endpoints_def init_fields py_or_def example_params_def)
  have out: "fst ?run = Inr \<lparr>scores = [[None, None], [Some (1 / 2), Some 3]]\<rparr>"
    by (simp add: model_defs example_defs)
  then have run: "?run = (Inr \<lparr>scores = [[None, None], [Some (1 / 2), Some 3]]\<rparr>, snd ?run)"
    by (simp add: prod_eq_iff)
  from one_post_per_endpoint[of example_numeric example_server "[''CCO'', ''C'']" "[]" 0 "[]" start ?self] run
  have "sent (snd ?run) = sent start @
        map (\<lambda>(url, port, endpoint).
               \<lparr>rq_url = url @ '':'' @ str_int port @ ''/'' @ endpoint,
                rq_json = JDict (Map.empty(''smiles'' \<mapsto> JList (map JString [''CCO'', ''C'']))),
                rq_headers = [(''Content-Type'', ''application/json'')],
                rq_timeout = 30\<rparr>)
            (endpoints ?self)"
    by blast
  then have first: "map rq_url (sent (snd ?run)) = [''http://b:80/sf'', ''http://a:80/sf''] \<and>
      map rq_headers (sent (snd ?run))
        = [[(''Content-Type'', ''application/json'')], [(''Content-Type'', ''application/json'')]] \<and>
      map rq_timeout (sent (snd ?run)) = [30, 30] \<and>
      map rq_json (sent (snd ?run))
        = [JDict (Map.empty(''smiles'' \<mapsto> JList [JString ''CCO'', JString ''C''])),
           JDict (Map.empty(''smiles'' \<mapsto> JList [JString ''CCO'', JString ''C'']))]"
    unfolding e by (simp add: start_def str_int_def digit_char_def)
  let ?self2 = "init (example_params [''http://a'', ''http://c'', ''http://b''])"
  let ?run2 = "call example_numeric example_server ?self2 [''CCO'', ''C''] start"
  have out2: "isl (fst ?run2)" by (simp add: model_defs example_defs)
  then have run2: "?run2 = (Inl (projl (fst ?run2)), snd ?run2)"
    by (simp add: prod_eq_iff)
  from one_post_per_endpoint[of example_numeric example_server "[''CCO'', ''C'']" "[]" 0 "[]" start ?self2] run2
  obtain pre ep where "sent (snd ?run2) = sent start @
           map (\<lambda>(url, port, endpoint).
                  \<lparr>rq_url = url @ '':'' @ str_int port @ ''/'' @ endpoint,
                   rq_json = JDict (Map.empty(''smiles'' \<mapsto> JList (map JString [''CCO'', ''C'']))),
                   rq_headers = [(''Content-Type'', ''application/json'')],
                   rq_timeout = 30\<rparr> :: rat request)
               (pre @ [ep])"
    by blast
  then have "sent (snd ?run2) \<noteq> []" by simp
  with first out out2 show ?thesis by simp
qed

text \<open>
  C9, as the claim states it, fails: not every configured endpoint gets a POST. With the
  hosts \<open>a\<close>, \<open>c\<close>, \<open>b\<close> configured, \<open>c\<close> answers 500, the call raises there,
  and no request goes to \<open>b\<close>.
\<close>

theorem post_to_every_endpoint_counterexample:
  "endpoints (init (example_params [''http://a'', ''http://c'', ''http://b'']))
     = [(''http://a'', 80, ''sf''), (''http://c'', 80, ''sf''), (''http://b'', 80, ''sf'')] \<and>
   isl (fst (call example_numeric example_server
        (init (example_params [''http://a'', ''http://c'', ''http://b''])) [''CCO'', ''C''] start)) \<and>
   map rq_url (sent (snd (call example_numeric example_server
        (init (example_params [''http://a'', ''http://c'', ''http://b''])) [''CCO'', ''C''] start)))
     = [''http://a:80/sf'', ''http://c:80/sf''] \<and>
   count_list (map rq_url (sent (snd (call example_numeric example_server
        (init (example_params [''http://a'', ''http://c'', ''http://b''])) [''CCO'', ''C''] start))))
      ''http://b:80/sf'' = 0"
  by (simp add: model_defs example_defs)

section \<open>Rounding\<close>

text \<open>
  The exponent function is right, rounding gives a nearest multiple of the unit in the
  last place, and a rounded value is a value of the format: rounding it again changes
  nothing.
\<close>

lemma bit_length_bounds:
  "0 < n \<Longrightarrow> 1 \<le> bit_length n \<and> 2 ^ nat (bit_length n - 1) \<le> n \<and> n < 2 ^ nat (bit_length n)"
proof (induction n rule: bit_length.induct)
  case (1 n)
  show ?case
  proof (cases "n div 2 = 0")
    case True
    with 1 have "n = 1" by simp
    then have "bit_length n = 1" by (simp add: bit_length.simps[of 1] bit_length.simps[of 0])
    with \<open>n = 1\<close> show ?thesis by simp
  next
    case False
    with 1 have pos: "0 < n div 2" by simp
    from 1 have nle: "\<not> n \<le> 0" by simp
    from "1.IH"[OF nle pos] have k1: "1 \<le> bit_length (n div 2)"
      and lo: "2 ^ nat (bit_length (n div 2) - 1) \<le> n div 2"
      and hi: "n div 2 < 2 ^ nat (bit_length (n div 2))" by simp_all
    have bl: "bit_length n = 1 + bit_length (n div 2)" using nle by (simp add: bit_length.simps[of n])
    have e1: "nat (bit_length n - 1) = Suc (nat (bit_length (n div 2) - 1))" using bl k1 by simp
    have e2: "nat (bit_length n) = Suc (nat (bit_length (n div 2)))" using bl k1 by simp
    have "2 * (n div 2) \<le> n" "n < 2 * (n div 2) + 2" by simp_all
    with lo hi have "2 ^ nat (bit_length n - 1) \<le> n" "n < 2 ^ nat (bit_length n)"
      unfolding e1 e2 by simp_all
    with bl k1 show ?thesis by simp
  qed
qed

lemma bit_length_rat:
  assumes "0 < n"
  shows "power_int 2 (bit_length n - 1) \<le> (of_int n :: rat)"
    and "(of_int n :: rat) < power_int 2 (bit_length n)"
proof -
  from bit_length_bounds[OF assms] have k: "1 \<le> bit_length n"
    and lo: "2 ^ nat (bit_length n - 1) \<le> n" and hi: "n < 2 ^ nat (bit_length n)" by simp_all
  have "(of_int (2 ^ nat (bit_length n - 1)) :: rat) \<le> of_int n" using lo by (simp only: of_int_le_iff)
  then show "power_int 2 (bit_length n - 1) \<le> (of_int n :: rat)"
    using k by (simp add: power_int_def)
  have "(of_int n :: rat) < of_int (2 ^ nat (bit_length n))" using hi by (simp only: of_int_less_iff)
  then show "(of_int n :: rat) < power_int 2 (bit_length n)"
    using k by (simp add: power_int_def)
qed

lemma ilog2_bounds:
  assumes "0 < q"
  shows "power_int 2 (ilog2 q) \<le> q" and "q < power_int 2 (ilog2 q + 1)"
proof -
  obtain a b where ab: "quotient_of q = (a, b)" by (cases "quotient_of q")
  then have b: "0 < b" and q: "q = of_int a / of_int b"
    using quotient_of_denom_pos[OF ab] quotient_of_div[OF ab] by simp_all
  with assms have a: "0 < a" by (simp add: zero_less_divide_iff)
  let ?d = "bit_length a - bit_length b"
  have B: "(0 :: rat) < of_int b" using b by simp
  have "q < power_int 2 (bit_length a) / power_int 2 (bit_length b - 1)"
  proof -
    have "q < power_int 2 (bit_length a) / of_int b"
      unfolding q using bit_length_rat(2)[OF a] B by (simp add: divide_strict_right_mono)
    also have "\<dots> \<le> power_int 2 (bit_length a) / power_int 2 (bit_length b - 1)"
      using bit_length_rat(1)[OF b] by (intro divide_left_mono) (auto intro!: mult_pos_pos B)
    finally show ?thesis .
  qed
  then have up: "q < power_int 2 (?d + 1)"
    by (simp add: power_int_diff[symmetric] algebra_simps)
  have "power_int 2 (bit_length a - 1) / power_int 2 (bit_length b) < q"
  proof -
    have "power_int 2 (bit_length a - 1) / power_int 2 (bit_length b)
        < power_int 2 (bit_length a - 1) / (of_int b :: rat)"
      using bit_length_rat(2)[OF b] B by (intro divide_strict_left_mono) (auto intro!: mult_pos_pos)
    also have "\<dots> \<le> q"
      unfolding q using bit_length_rat(1)[OF a] B by (simp add: divide_right_mono)
    finally show ?thesis .
  qed
  then have lo: "power_int 2 (?d - 1) < q"
    by (simp add: power_int_diff[symmetric] algebra_simps)
  have il: "ilog2 q = (if power_int 2 ?d \<le> q then ?d else ?d - 1)"
    by (simp add: ilog2_def ab Let_def)
  show "power_int 2 (ilog2 q) \<le> q" using lo unfolding il by auto
  show "q < power_int 2 (ilog2 q + 1)" using up unfolding il by auto
qed

lemma ilog2_unique:
  assumes "0 < q" "power_int 2 e \<le> q" "q < power_int 2 (e + 1)"
  shows "ilog2 q = e"
proof -
  from ilog2_bounds[OF assms(1)] assms(2,3)
  have "power_int (2 :: rat) (ilog2 q) < power_int 2 (e + 1)"
    and "power_int (2 :: rat) e < power_int 2 (ilog2 q + 1)" by simp_all
  then have "ilog2 q < e + 1" "e < ilog2 q + 1"
    by (metis not_less power_int_increasing one_le_numeral)+
  then show ?thesis by simp
qed

lemma ilog2_less:
  assumes "0 < q" "q < power_int 2 (e + 1)"
  shows "ilog2 q \<le> e"
proof -
  from ilog2_bounds(1)[OF assms(1)] assms(2)
  have "power_int (2 :: rat) (ilog2 q) < power_int 2 (e + 1)" by simp
  then have "ilog2 q < e + 1"
    by (metis not_less power_int_increasing one_le_numeral)
  then show ?thesis by simp
qed


lemma round_half_even_of_int: "round_half_even (of_int k) = k"
  by (simp add: round_half_even_def)

lemma round_half_even_le:
  assumes "x \<le> of_int n"
  shows "round_half_even x \<le> n"
proof (cases "x = of_int n")
  case True
  then show ?thesis by (simp add: round_half_even_of_int)
next
  case False
  with assms have "x < of_int n" by simp
  then have "\<lfloor>x\<rfloor> < n" by (simp add: floor_less_iff)
  then show ?thesis by (simp add: round_half_even_def Let_def)
qed

lemma round_half_even_nonneg:
  assumes "0 \<le> x"
  shows "0 \<le> round_half_even x"
proof -
  from assms have "0 \<le> \<lfloor>x\<rfloor>" by simp
  then show ?thesis by (simp add: round_half_even_def Let_def)
qed

lemma round_to_fixed:
  assumes R: "0 < R" and s: "s = 1 \<or> s = - 1"
    and k: "R / power_int 2 (max (ilog2 R) emin - int p + 1) = of_int k"
    and fin: "\<not> power_int 2 (emax + 1) \<le> R"
  shows "round_to p emin emax (s * R) = Num (s * R)"
proof -
  from R s have abs: "\<bar>s * R\<bar> = R" and sgn: "sgn (s * R) = s" and nz: "s * R \<noteq> 0"
    by (auto simp: abs_mult sgn_mult)
  let ?u = "power_int (2 :: rat) (max (ilog2 R) emin - int p + 1)"
  have u: "?u \<noteq> 0" by simp
  have "of_int (round_half_even (R / ?u)) * ?u = R"
    unfolding k round_half_even_of_int using k u by (metis nonzero_divide_eq_eq)
  then show ?thesis using fin
    by (simp add: round_to_def nz abs sgn Let_def)
qed

lemma round_to_idem:
  assumes "round_to p emin emax q = Num r" and p: "0 < p"
  shows "round_to p emin emax r = Num r"
proof (cases "q = 0")
  case True
  with assms show ?thesis by (auto simp: round_to_def)
next
  case False
  define a where "a = \<bar>q\<bar>"
  define e where "e = max (ilog2 a) emin"
  define u where "u = power_int (2 :: rat) (e - int p + 1)"
  define m where "m = round_half_even (a / u)"
  define R where "R = of_int m * u"
  from False have a: "0 < a" by (simp add: a_def)
  have u: "0 < u" by (simp add: u_def)
  from assms(1) False have fin: "\<not> power_int 2 (emax + 1) \<le> R" and r: "r = sgn q * R"
    by (auto simp: round_to_def Let_def a_def e_def u_def m_def R_def split: if_splits)
  from False have s: "sgn q = 1 \<or> sgn q = - 1" by (auto simp: sgn_if)
  have m0: "0 \<le> m" unfolding m_def using a u by (intro round_half_even_nonneg) simp
  show ?thesis
  proof (cases "m = 0")
    case True
    then have "r = 0" by (simp add: r R_def)
    then show ?thesis by (simp add: round_to_def)
  next
    case False
    with m0 have mpos: "0 < m" by simp
    then have Rpos: "0 < R" using u by (simp add: R_def)
    have "a < power_int 2 (ilog2 a + 1)" by (rule ilog2_bounds(2)[OF a])
    also have "\<dots> \<le> power_int 2 (e + 1)"
      by (intro power_int_increasing) (simp_all add: e_def)
    finally have aup: "a < power_int 2 (e + 1)" .
    have split: "power_int (2 :: rat) (e + 1) = of_int (2 ^ p) * u"
    proof -
      have "power_int (2 :: rat) (e + 1) = power_int 2 (int p + (e - int p + 1))" by simp
      also have "\<dots> = power_int 2 (int p) * power_int 2 (e - int p + 1)"
        by (rule power_int_add) simp
      finally show ?thesis by (simp add: u_def)
    qed
    have "a / u \<le> of_int (2 ^ p)" using aup u unfolding split by (simp add: pos_divide_le_eq)
    then have mle: "m \<le> 2 ^ p" unfolding m_def by (rule round_half_even_le)
    have "\<exists>k. R / power_int 2 (max (ilog2 R) emin - int p + 1) = of_int k"
    proof (cases "m = 2 ^ p")
      case True
      then have R2: "R = power_int 2 (e + 1)" by (simp add: R_def split)
      have "R < power_int 2 (e + 1 + 1)" unfolding R2
        by (intro power_int_strict_increasing) simp_all
      with R2 Rpos have "ilog2 R = e + 1" by (intro ilog2_unique) simp_all
      moreover have "emin \<le> e" by (simp add: e_def)
      ultimately have e': "max (ilog2 R) emin = e + 1" by simp
      from p obtain p' where p': "p = Suc p'" by (cases p) simp_all
      have "power_int (2 :: rat) (e + 1 - int p + 1) = 2 * u"
      proof -
        have "power_int (2 :: rat) (e + 1 - int p + 1) = power_int 2 (1 + (e - int p + 1))"
          by (simp add: algebra_simps)
        also have "\<dots> = power_int 2 1 * power_int 2 (e - int p + 1)"
          by (rule power_int_add) simp
        finally show ?thesis by (simp add: u_def)
      qed
      then have "R / power_int 2 (max (ilog2 R) emin - int p + 1) = of_int (2 ^ p')"
        unfolding e' using u by (simp add: R2 split p')
      then show ?thesis by blast
    next
      case False
      with mle have "m < 2 ^ p" by simp
      then have "(of_int m :: rat) < of_int (2 ^ p)" by (simp only: of_int_less_iff)
      then have "R < power_int 2 (e + 1)" unfolding R_def split using u by simp
      with Rpos have "ilog2 R \<le> e" by (intro ilog2_less)
      moreover have "emin \<le> e" by (simp add: e_def)
      ultimately have le: "max (ilog2 R) emin \<le> e" by simp
      define e' where "e' = max (ilog2 R) emin"
      define n where "n = nat (e - e')"
      from le have en: "e = e' + int n" by (simp add: n_def e'_def)
      have "u = power_int 2 (int n + (e' - int p + 1))" by (simp add: u_def en algebra_simps)
      also have "\<dots> = power_int 2 (int n) * power_int 2 (e' - int p + 1)"
        by (rule power_int_add) simp
      finally have "u = 2 ^ n * power_int 2 (e' - int p + 1)" by simp
      then have "R / power_int 2 (e' - int p + 1) = of_int (m * 2 ^ n)"
        by (simp add: R_def)
      then show ?thesis unfolding e'_def by blast
    qed
    then obtain k where "R / power_int 2 (max (ilog2 R) emin - int p + 1) = of_int k" ..
    from round_to_fixed[OF Rpos s this fin] show ?thesis by (simp add: r)
  qed
qed

lemma to_binary32_idem: "to_binary32 (to_binary32 d) = to_binary32 d"
proof (cases d)
  case (Num q)
  show ?thesis
  proof (cases "round_to 24 (- 126) 127 q")
    case (Num r)
    from round_to_idem[OF this] Num \<open>d = Num q\<close> show ?thesis by (simp add: to_binary32_def)
  qed (simp_all add: to_binary32_def Num)
qed (simp_all add: to_binary32_def)


lemma round_half_even_error: "\<bar>of_int (round_half_even x) - x\<bar> \<le> 1 / 2"
proof -
  have "of_int \<lfloor>x\<rfloor> \<le> x" "x < of_int \<lfloor>x\<rfloor> + 1" by linarith+
  then show ?thesis unfolding round_half_even_def Let_def
    by (simp add: abs_if) linarith
qed

lemma round_to_nearest:
  assumes "round_to p emin emax q = Num r"
  shows "\<bar>r - q\<bar> \<le> power_int 2 (max (ilog2 \<bar>q\<bar>) emin - int p + 1) / 2"
proof (cases "q = 0")
  case True
  with assms show ?thesis by (auto simp: round_to_def)
next
  case False
  define u where "u = power_int (2 :: rat) (max (ilog2 \<bar>q\<bar>) emin - int p + 1)"
  define m where "m = round_half_even (\<bar>q\<bar> / u)"
  have u: "0 < u" by (simp add: u_def)
  from assms False have r: "r = sgn q * (of_int m * u)"
    by (auto simp: round_to_def Let_def u_def m_def split: if_splits)
  have "r - q = sgn q * (of_int m * u - \<bar>q\<bar>)"
    using mult_sgn_abs[of q] by (simp add: r algebra_simps)
  also have "of_int m * u - \<bar>q\<bar> = (of_int m - \<bar>q\<bar> / u) * u"
    using u by (simp add: algebra_simps)
  finally have "\<bar>r - q\<bar> = \<bar>of_int m - \<bar>q\<bar> / u\<bar> * u"
    using False u by (simp add: abs_mult abs_sgn_eq)
  also have "\<dots> \<le> (1 / 2) * u"
    unfolding m_def using u by (intro mult_right_mono round_half_even_error) simp
  finally show ?thesis by (simp add: u_def)
qed

section \<open>The element type of the scores\<close>

text \<open>The example of the docstring, evaluated.\<close>

lemma docstring_double_value:
  "docstring_double = Num (5188840863963141 / 2 ^ 53)"
  by code_simp

lemma cast_of_value:
  "to_binary32 (Num (5188840863963141 / 2 ^ 53)) = Num (9664969 / 2 ^ 24)"
  by code_simp

lemma values_differ:
  "Num (9664969 / 2 ^ 24) \<noteq> Num (5188840863963141 / 2 ^ 53)"
  by code_simp

lemma docstring_double_cast:
  "to_binary32 docstring_double = Num (9664969 / 2 ^ 24)"
  by (simp only: docstring_double_value cast_of_value)

lemma parse_entry_slot:
  "parse_entry L x = Inr (Some y) \<Longrightarrow> \<exists>d. y = to_float32 L d"
  by (auto simp: parse_entry_def split: sum.splits json.splits if_splits)

lemma parse_loop_slots:
  "parse_loop L n results i xs = Inr v \<Longrightarrow>
   \<forall>y \<in> set results. y = nan32 L \<or> (\<exists>d. y = to_float32 L d) \<Longrightarrow>
   \<forall>y \<in> set v. y = nan32 L \<or> (\<exists>d. y = to_float32 L d)"
proof (induction xs arbitrary: results i)
  case Nil
  then show ?case by simp
next
  case (Cons x xs)
  show ?case
  proof (cases "i \<ge> n")
    case True
    with Cons.prems show ?thesis by simp
  next
    case False
    show ?thesis
    proof (cases "parse_entry L x")
      case (Inl e)
      with Cons.prems False show ?thesis by simp
    next
      case (Inr r)
      show ?thesis
      proof (cases r)
        case None
        with Inr Cons.prems False have "parse_loop L n results (i + 1) xs = Inr v" by simp
        from Cons.IH[OF this Cons.prems(2)] show ?thesis .
      next
        case (Some y)
        with Inr Cons.prems False have run: "parse_loop L n (results[i := y]) (i + 1) xs = Inr v"
          by simp
        from Inr Some have "parse_entry L x = Inr (Some y)" by simp
        from parse_entry_slot[OF this] obtain d where "y = to_float32 L d" by blast
        with Cons.prems(2)
        have "\<forall>z \<in> set (results[i := y]). z = nan32 L \<or> (\<exists>d. z = to_float32 L d)"
          using set_update_subset_insert[of results i y] by auto
        from Cons.IH[OF run this] show ?thesis .
      qed
    qed
  qed
qed

lemma parse_response_slots:
  "parse_response L j n = Inr v \<Longrightarrow> \<forall>y \<in> set v. y = nan32 L \<or> (\<exists>d. y = to_float32 L d)"
  by (cases j) (auto simp: parse_response_def dest!: parse_loop_slots)

lemma query_endpoint_slots:
  "query_endpoint L srv smilies ep s = (Inr v, s') \<Longrightarrow>
   \<forall>y \<in> set v. y = nan32 L \<or> (\<exists>d. y = to_float32 L d)"
  by (auto simp: query_endpoint_def try_request_def Let_def
           split: prod.splits sum.splits if_splits dest!: parse_response_slots)

lemma score_loop_slots:
  "score_loop L srv smilies eps acc s = (Inr rs, s') \<Longrightarrow>
   \<forall>v \<in> set acc. \<forall>y \<in> set v. y = nan32 L \<or> (\<exists>d. y = to_float32 L d) \<Longrightarrow>
   \<forall>v \<in> set rs. \<forall>y \<in> set v. y = nan32 L \<or> (\<exists>d. y = to_float32 L d)"
proof (induction eps arbitrary: acc s)
  case Nil
  then show ?case by simp
next
  case (Cons ep eps)
  from Cons.prems(1) obtain r s1 where q: "query_endpoint L srv smilies ep s = (Inr r, s1)"
    and rest: "score_loop L srv smilies eps (acc @ [r]) s1 = (Inr rs, s')"
    by (auto split: prod.splits sum.splits)
  from query_endpoint_slots[OF q] Cons.prems(2)
  have "\<forall>v \<in> set (acc @ [r]). \<forall>y \<in> set v. y = nan32 L \<or> (\<exists>d. y = to_float32 L d)"
    by auto
  from Cons.IH[OF rest this] show ?case .
qed

lemma call_slots:
  "call L srv self smilies s = (Inr rs, s') \<Longrightarrow>
   \<forall>v \<in> set (scores rs). \<forall>y \<in> set v. y = nan32 L \<or> (\<exists>d. y = to_float32 L d)"
  using score_loop_slots[of L srv smilies "endpoints self" "[]" s]
  by (auto simp: call_def split: prod.splits sum.splits)

text \<open>
  C10. Every slot of every vector that a call returns, whether it comes from the parser
  or from the handler of a failed request, is the NaN of float32 or a double cast to
  float32; a prediction that \<open>float\<close> accepts is stored as its cast. With IEEE floats
  the cast is the rounding to binary32, to a nearest value, and the sentinel is NaN, so
  every slot is a binary32 value. The prediction \<open>0.5760770598287769\<close> decodes to
  the double \<open>5188840863963141 / 2^53\<close> and is stored as \<open>9664969 / 2^24\<close>, which
  is not that double.
\<close>

theorem scores_are_float32:
  "(\<forall>rs s'. call L srv self smilies s = (Inr rs, s') \<longrightarrow>
      (\<forall>v \<in> set (scores rs). \<forall>y \<in> set v. y = nan32 L \<or> (\<exists>d. y = to_float32 L d))) \<and>
   (\<forall>v. parse_response L response_json n = Inr v \<longrightarrow>
      (\<forall>y \<in> set v. y = nan32 L \<or> (\<exists>d. y = to_float32 L d))) \<and>
   (\<forall>m p x. m ''prediction'' = Some p \<and> p \<noteq> JNull \<and> py_float L p = Inr x \<longrightarrow>
      parse_entry L (JDict m) = Inr (Some (to_float32 L x))) \<and>
   to_float32 (ieee_numeric parse) = to_binary32 \<and>
   nan32 (ieee_numeric parse) = NaN \<and>
   (\<forall>rs s'. call (ieee_numeric parse) srv' self smilies t = (Inr rs, s') \<longrightarrow>
      (\<forall>v \<in> set (scores rs). \<forall>y \<in> set v. is_binary32 y)) \<and>
   (\<forall>e w'. srv' (post_for smilies ep) (world t) = (Inl e, w') \<and> is_RequestException e \<longrightarrow>
      fst (query_endpoint (ieee_numeric parse) srv' smilies ep t)
        = Inr (replicate (length smilies) NaN)) \<and>
   (\<forall>q r. to_binary32 (Num q) = Num r \<longrightarrow>
      \<bar>r - q\<bar> \<le> power_int 2 (max (ilog2 \<bar>q\<bar>) (- 126) - 23) / 2) \<and>
   docstring_double = Num (5188840863963141 / 2 ^ 53) \<and>
   to_binary32 docstring_double = Num (9664969 / 2 ^ 24) \<and>
   to_binary32 docstring_double \<noteq> docstring_double"
proof (intro conjI allI impI)
  show "\<forall>v \<in> set (scores rs). \<forall>y \<in> set v. y = nan32 L \<or> (\<exists>d. y = to_float32 L d)"
    if "call L srv self smilies s = (Inr rs, s')" for rs s'
    using that by (rule call_slots)
  show "\<forall>y \<in> set v. y = nan32 L \<or> (\<exists>d. y = to_float32 L d)"
    if "parse_response L response_json n = Inr v" for v
    using that by (rule parse_response_slots)
  show "parse_entry L (JDict m) = Inr (Some (to_float32 L x))"
    if "m ''prediction'' = Some p \<and> p \<noteq> JNull \<and> py_float L p = Inr x" for m p x
    using that parse_entry_stored[of m p L x] by blast
  show "to_float32 (ieee_numeric parse) = to_binary32" "nan32 (ieee_numeric parse) = NaN"
    by (simp_all add: ieee_numeric_def)
  show "\<forall>v \<in> set (scores rs). \<forall>y \<in> set v. is_binary32 y"
    if "call (ieee_numeric parse) srv' self smilies t = (Inr rs, s')" for rs s'
  proof (intro ballI)
    fix v y assume "v \<in> set (scores rs)" "y \<in> set v"
    with call_slots[OF that]
    have "y = NaN \<or> (\<exists>d. y = to_binary32 d)" by (auto simp: ieee_numeric_def)
    then show "is_binary32 y"
      by (auto simp: is_binary32_def to_binary32_idem) (simp add: to_binary32_def)
  qed
  show "fst (query_endpoint (ieee_numeric parse) srv' smilies ep t)
        = Inr (replicate (length smilies) NaN)"
    if "srv' (post_for smilies ep) (world t) = (Inl e, w') \<and> is_RequestException e" for e w'
  proof -
    from that have "srv' (post_for smilies ep) (world t) = (Inl e, w')" "is_RequestException e"
      by simp_all
    then have "query_endpoint (ieee_numeric parse) srv' smilies ep t =
       (Inr (replicate (length smilies) (nan32 (ieee_numeric parse))),
        \<lparr>sent = sent t @ [post_for smilies ep], world = w'\<rparr>)"
      by (rule query_endpoint_transport_failure)
    then show ?thesis by (simp add: ieee_numeric_def)
  qed
  show "\<bar>r - q\<bar> \<le> power_int 2 (max (ilog2 \<bar>q\<bar>) (- 126) - 23) / 2"
    if "to_binary32 (Num q) = Num r" for q r
    using round_to_nearest[of 24 "- 126" 127 q r] that by (simp add: to_binary32_def)
  show "docstring_double = Num (5188840863963141 / 2 ^ 53)"
    by (rule docstring_double_value)
  show "to_binary32 docstring_double = Num (9664969 / 2 ^ 24)"
    by (rule docstring_double_cast)
  show "to_binary32 docstring_double \<noteq> docstring_double"
    unfolding docstring_double_value cast_of_value by (rule values_differ)
qed

text \<open>
  At a concrete input: the default endpoint answers the record of the docstring for the
  first of two molecules.
\<close>

theorem scores_are_float32_witness:
  "fst (call (ieee_numeric Map.empty) docstring_server
          (init \<lparr>server_url = None, server_port = None, server_endpoint = None\<rparr>)
          [''C1=CC=CC=C1'', ''CCO''] \<lparr>sent = [], world = ()\<rparr>)
     = Inr \<lparr>scores = [[Num (9664969 / 2 ^ 24), NaN]]\<rparr> \<and>
   is_binary32 (Num (9664969 / 2 ^ 24)) \<and>
   is_binary32 NaN \<and>
   Num (9664969 / 2 ^ 24) \<noteq> docstring_double"
proof -
  let ?L = "ieee_numeric Map.empty"
  let ?self = "init \<lparr>server_url = None, server_port = None, server_endpoint = None\<rparr>"
  let ?s = "\<lparr>sent = [], world = ()\<rparr> :: (ieee, unit) net"
  let ?run = "call ?L docstring_server ?self [''C1=CC=CC=C1'', ''CCO''] ?s"
  note facts = scores_are_float32[of ?L docstring_server ?self "[''C1=CC=CC=C1'', ''CCO'']" ?s
      "JNull" 0 Map.empty docstring_server ?s "(''http://localhost'', 5000, ''sf'')"]
  have out: "fst ?run = Inr \<lparr>scores = [[Num (9664969 / 2 ^ 24), NaN]]\<rparr>"
    by (simp add: model_defs ieee_numeric_def docstring_server_def docstring_double_cast
        numeral_2_eq_2)
  then have run: "?run = (Inr \<lparr>scores = [[Num (9664969 / 2 ^ 24), NaN]]\<rparr>, snd ?run)"
    by (simp add: prod_eq_iff)
  from facts run
  have "\<forall>v \<in> set (scores \<lparr>scores = [[Num (9664969 / 2 ^ 24), NaN]]\<rparr>).
          \<forall>y \<in> set v. is_binary32 y"
    by blast
  then have "is_binary32 (Num (9664969 / 2 ^ 24))" "is_binary32 NaN" by simp_all
  moreover from facts have "Num (9664969 / 2 ^ 24) \<noteq> docstring_double" by metis
  ultimately show ?thesis using out by simp
qed

end
